theory Spec2Isabelle
  imports Main
begin

section \<open>Python values used by the scheduler\<close>

text \<open>
  The module under study is \<^verbatim>\<open>utils/task_scheduler.py\<close>, class \<^verbatim>\<open>TaskScheduler\<close>.
  Exceptions are values of the type \<open>error\<close>; a call that may raise returns
  \<open>error + 'a\<close> with \<open>Inl\<close> for the exception. All of them are subclasses of
  Python's \<^verbatim>\<open>Exception\<close>, which is what the handlers of the module catch.
\<close>

datatype error =
    OSError
  | JSONDecodeError
  | AttributeError
  | ValueError
  | TypeError
  | JobLookupError
  | HTTPException
  | SchedulerAlreadyRunningError

text \<open>
  A \<^verbatim>\<open>datetime.datetime\<close>. It is naive when \<open>utcoffset\<close> is \<open>None\<close>, and aware
  otherwise, the offset from UTC being given in seconds. \<^verbatim>\<open>datetime.now()\<close> is naive;
  \<^verbatim>\<open>datetime.fromisoformat\<close> is aware when the string ends in an offset such as
  \<^verbatim>\<open>+00:00\<close>.
\<close>

record datetime =
  year :: nat
  month :: nat
  day :: nat
  hour :: nat
  minute :: nat
  second :: nat
  microsecond :: nat
  utcoffset :: "int option"

fun lex_less :: "nat list \<Rightarrow> nat list \<Rightarrow> bool" where
  "lex_less (x # xs) (y # ys) = (x < y \<or> (x = y \<and> lex_less xs ys))"
| "lex_less _ _ = False"

definition dt_fields :: "datetime \<Rightarrow> nat list" where
  "dt_fields d = [year d, month d, day d, hour d, minute d, second d, microsecond d]"

text \<open>
  \<^verbatim>\<open>datetime.weekday()\<close>: Monday is 0 and Sunday is 6, computed as CPython does from
  the proleptic Gregorian ordinal, \<^verbatim>\<open>(toordinal() + 6) % 7\<close>.
\<close>

definition is_leap :: "nat \<Rightarrow> bool" where
  "is_leap y = (y mod 4 = 0 \<and> (y mod 100 \<noteq> 0 \<or> y mod 400 = 0))"

definition days_before_year :: "nat \<Rightarrow> nat" where
  "days_before_year y = (let p = y - 1 in p * 365 + p div 4 - p div 100 + p div 400)"

definition days_in_month :: "nat list" where
  "days_in_month = [31, 28, 31, 30, 31, 30, 31, 31, 30, 31, 30, 31]"

definition days_before_month :: "nat \<Rightarrow> nat \<Rightarrow> nat" where
  "days_before_month y m =
     sum_list (take (m - 1) days_in_month) + (if 2 < m \<and> is_leap y then 1 else 0)"

definition toordinal :: "datetime \<Rightarrow> nat" where
  "toordinal d = days_before_year (year d) + days_before_month (year d) (month d) + day d"

definition weekday :: "datetime \<Rightarrow> nat" where
  "weekday d = (toordinal d + 6) mod 7"

text \<open>
  \<^verbatim>\<open>a < b\<close> on two datetimes, as CPython compares them: two naive ones, or two aware
  ones of the same offset, field by field; two aware ones of different offsets by the
  instants they denote; a naive one with an aware one raises \<^verbatim>\<open>TypeError\<close>.
\<close>

definition instant :: "datetime \<Rightarrow> int" where
  "instant d =
     ((((int (toordinal d) * 24 + int (hour d)) * 60 + int (minute d)) * 60 + int (second d))
        - (case utcoffset d of None \<Rightarrow> 0 | Some off \<Rightarrow> off)) * 1000000
     + int (microsecond d)"

definition dt_less :: "datetime \<Rightarrow> datetime \<Rightarrow> error + bool" where
  "dt_less a b =
     (case (utcoffset a, utcoffset b) of
        (None, None) \<Rightarrow> Inr (lex_less (dt_fields a) (dt_fields b))
      | (Some off_a, Some off_b) \<Rightarrow>
          if off_a = off_b then Inr (lex_less (dt_fields a) (dt_fields b))
          else Inr (instant a < instant b)
      | _ \<Rightarrow> Inl TypeError)"

section \<open>Data model\<close>

text \<open>
  One stored announcement: the dictionary built by \<^verbatim>\<open>create_announcement\<close>, with the
  keys \<^verbatim>\<open>id\<close>, \<^verbatim>\<open>type\<close>, \<^verbatim>\<open>text\<close>, \<^verbatim>\<open>location\<close>, \<^verbatim>\<open>practice_time\<close>, \<^verbatim>\<open>datetime\<close>,
  \<^verbatim>\<open>repeating\<close>, \<^verbatim>\<open>role_id\<close>, \<^verbatim>\<open>created_by\<close>, \<^verbatim>\<open>created_at\<close>. Three keys carry the
  prefix \<open>ann_\<close> here because \<open>id\<close>, \<open>type\<close> and \<open>text\<close> are taken in Isabelle, and
  \<^verbatim>\<open>datetime\<close> is \<open>ann_datetime\<close> (the ISO string, still unparsed). The recurrence stays
  a string, as in the source, so that values outside the recognised literals exist.
\<close>

record announcement =
  ann_id :: string
  ann_type :: string
  ann_text :: string
  location :: "string option"
  practice_time :: "string option"
  ann_datetime :: string
  repeating :: string
  role_id :: int
  created_by :: int
  created_at :: string

text \<open>
  What \<^verbatim>\<open>json.loads\<close> can return, as far as the module looks at it: an object, on
  which \<^verbatim>\<open>.get('announcements', [])\<close> is called, or any other JSON value (array, string,
  number, \<^verbatim>\<open>null\<close>), on which \<^verbatim>\<open>.get\<close> raises \<^verbatim>\<open>AttributeError\<close>. The values under the
  keys of an object are lists of announcements.
\<close>

datatype json = JObject "(string \<times> announcement list) list" | JOther

text \<open>
  The rule handed to APScheduler. \<open>CronTrigger w d h m\<close> stands for
  \<^verbatim>\<open>CronTrigger(day_of_week=w, day=d, hour=h, minute=m)\<close>, a keyword that the call
  leaves out being \<open>None\<close>.
\<close>

datatype trigger =
    DateTrigger datetime
  | CronTrigger "nat option" "nat option" nat nat

text \<open>The messages the module logs, one constructor per \<^verbatim>\<open>logger\<close> call.\<close>

datatype log_entry =
    Info_scheduler_started
  | Info_skipping_missed string
  | Info_rescheduled nat nat
  | Info_created string string
  | Info_cancelled_job string
  | Warning_could_not_cancel string error
  | Info_deleted string
  | Error_unknown_repeating string
  | Info_scheduled_job string string
  | Error_announcement_not_found string
  | Error_channel_not_found int
  | Info_sent string
  | Info_removed_one_time string
  | Error_executing string error
  | Error_loading error
  | Debug_saved
  | Error_writing error

section \<open>The world outside the module\<close>

text \<open>
  Which file-system calls of the module raise \<^verbatim>\<open>OSError\<close>. Each flag belongs to one
  call site; a call that raises leaves the files as they were. For the temporary file
  the call is the \<^verbatim>\<open>open\<close> for writing: when it raises, no file is created or truncated.
\<close>

record faults =
  fail_read :: bool
  fail_remove_backup :: bool
  fail_rename_backup :: bool
  fail_write_temp :: bool
  fail_swap :: bool
  fail_restore :: bool

definition no_faults :: faults where
  "no_faults = \<lparr>fail_read = False, fail_remove_backup = False, fail_rename_backup = False,
     fail_write_temp = False, fail_swap = False, fail_restore = False\<rparr>"

text \<open>
  The Discord channel found by \<^verbatim>\<open>bot.get_channel\<close>: the roles of its guild (role id to
  mention string) and the outcome of \<^verbatim>\<open>channel.send\<close> (\<open>None\<close> when it succeeds).
\<close>

record channel =
  get_role :: "int \<Rightarrow> string option"
  send_error :: "error option"

text \<open>
  Library functions and the environment are parameters: the JSON codec over the bytes
  \<open>'b\<close> of a file (\<open>loads\<close> is \<open>None\<close> on a \<^verbatim>\<open>JSONDecodeError\<close>),
  \<^verbatim>\<open>datetime.fromisoformat\<close> (\<open>None\<close> on a \<^verbatim>\<open>ValueError\<close>), \<^verbatim>\<open>isoformat\<close>, the clock,
  \<^verbatim>\<open>uuid.uuid4\<close>, the faults, \<^verbatim>\<open>int(os.getenv('ANNOUNCEMENT_CHANNEL_ID'))\<close> and
  \<^verbatim>\<open>bot.get_channel\<close>.
\<close>

record 'b env =
  loads :: "'b \<Rightarrow> json option"
  dumps :: "json \<Rightarrow> 'b"
  fromisoformat :: "string \<Rightarrow> datetime option"
  isoformat :: "datetime \<Rightarrow> string"
  now :: datetime
  uuid4 :: string
  faults :: faults
  channel_id :: "error + int"
  get_channel :: "int \<Rightarrow> channel option"

text \<open>
  The state the module reads and writes: the three files
  \<^verbatim>\<open>data/announcements.json\<close> (\<open>canonical\<close>), \<^verbatim>\<open>data/announcements.json.bak\<close>
  (\<open>backup\<close>) and \<^verbatim>\<open>data/announcements.json.tmp\<close> (\<open>temp\<close>), each absent or holding
  bytes; the job table of the \<^verbatim>\<open>AsyncIOScheduler\<close> (job id to trigger); whether the
  scheduler was started; the messages delivered to the channel; and the log.
\<close>

record 'b state =
  canonical :: "'b option"
  backup :: "'b option"
  temp :: "'b option"
  jobs :: "string \<Rightarrow> trigger option"
  running :: bool
  sent :: "string list"
  logged :: "log_entry list"

definition log_msg :: "log_entry \<Rightarrow> 'b state \<Rightarrow> 'b state" where
  "log_msg m s = s\<lparr>logged := logged s @ [m]\<rparr>"

section \<open>Store: reading and writing the collection\<close>

text \<open>
  \<^verbatim>\<open>_load_announcements\<close>. The body of its \<^verbatim>\<open>try\<close> first: no file gives the empty
  list; otherwise the file is read, parsed, and \<^verbatim>\<open>data.get('announcements', [])\<close> is
  returned. (Isabelle names cannot start with an underscore, which is dropped from the
  private methods.)
\<close>

definition load_body :: "'b env \<Rightarrow> 'b state \<Rightarrow> error + announcement list" where
  "load_body e s =
     (case canonical s of
        None \<Rightarrow> Inr []
      | Some content \<Rightarrow>
          if fail_read (faults e) then Inl OSError
          else (case loads e content of
                  None \<Rightarrow> Inl JSONDecodeError
                | Some JOther \<Rightarrow> Inl AttributeError
                | Some (JObject data) \<Rightarrow>
                    (case map_of data ''announcements'' of
                       None \<Rightarrow> Inr []
                     | Some announcements \<Rightarrow> Inr announcements)))"

text \<open>The handler \<^verbatim>\<open>except Exception\<close> logs and returns the empty list.\<close>

definition load_announcements :: "'b env \<Rightarrow> 'b state \<Rightarrow> announcement list \<times> 'b state" where
  "load_announcements e s =
     (case load_body e s of
        Inr announcements \<Rightarrow> (announcements, s)
      | Inl err \<Rightarrow> ([], log_msg (Error_loading err) s))"

text \<open>
  The file-system calls of \<^verbatim>\<open>_write_announcements\<close>, each returning the exception it
  raised, if any, and the files after it. \<^verbatim>\<open>os.rename\<close> replaces its destination (POSIX).
\<close>

definition os_remove_backup :: "'b env \<Rightarrow> 'b state \<Rightarrow> error option \<times> 'b state" where
  "os_remove_backup e s =
     (if fail_remove_backup (faults e) then (Some OSError, s)
      else (None, s\<lparr>backup := None\<rparr>))"

definition os_rename_canonical_to_backup :: "'b env \<Rightarrow> 'b state \<Rightarrow> error option \<times> 'b state" where
  "os_rename_canonical_to_backup e s =
     (if fail_rename_backup (faults e) then (Some OSError, s)
      else (None, s\<lparr>backup := canonical s, canonical := None\<rparr>))"

definition write_temp_file :: "'b env \<Rightarrow> json \<Rightarrow> 'b state \<Rightarrow> error option \<times> 'b state" where
  "write_temp_file e data s =
     (if fail_write_temp (faults e) then (Some OSError, s)
      else (None, s\<lparr>temp := Some (dumps e data)\<rparr>))"

definition os_rename_temp_to_canonical :: "'b env \<Rightarrow> 'b state \<Rightarrow> error option \<times> 'b state" where
  "os_rename_temp_to_canonical e s =
     (if fail_swap (faults e) then (Some OSError, s)
      else (None, s\<lparr>canonical := temp s, temp := None\<rparr>))"

definition os_rename_backup_to_canonical :: "'b env \<Rightarrow> 'b state \<Rightarrow> error option \<times> 'b state" where
  "os_rename_backup_to_canonical e s =
     (if fail_restore (faults e) then (Some OSError, s)
      else (None, s\<lparr>canonical := backup s, backup := None\<rparr>))"

text \<open>Statements in sequence: the next one runs only when nothing was raised.\<close>

definition and_then ::
  "error option \<times> 'b state \<Rightarrow> ('b state \<Rightarrow> error option \<times> 'b state) \<Rightarrow> error option \<times> 'b state" where
  "and_then r f = (case r of (Some err, s) \<Rightarrow> (Some err, s) | (None, s) \<Rightarrow> f s)"

text \<open>The \<^verbatim>\<open>try\<close> block of \<^verbatim>\<open>_write_announcements\<close>: backup, temporary file, swap.\<close>

definition make_backup :: "'b env \<Rightarrow> 'b state \<Rightarrow> error option \<times> 'b state" where
  "make_backup e s =
     (if canonical s \<noteq> None then
        and_then (if backup s \<noteq> None then os_remove_backup e s else (None, s))
          (os_rename_canonical_to_backup e)
      else (None, s))"

definition write_body :: "'b env \<Rightarrow> announcement list \<Rightarrow> 'b state \<Rightarrow> error option \<times> 'b state" where
  "write_body e announcements s =
     and_then
       (and_then
         (and_then (make_backup e s)
            (write_temp_file e (JObject [(''announcements'', announcements)])))
         (os_rename_temp_to_canonical e))
       (\<lambda>s'. (None, log_msg Debug_saved s'))"

text \<open>
  \<^verbatim>\<open>_write_announcements\<close>: on an exception the handler logs it, moves the backup back
  when there is one, and raises again. An exception of the restoring \<^verbatim>\<open>os.rename\<close>
  itself leaves the handler in place of the first one.
\<close>

definition write_announcements ::
  "'b env \<Rightarrow> announcement list \<Rightarrow> 'b state \<Rightarrow> (error + unit) \<times> 'b state" where
  "write_announcements e announcements s =
     (case write_body e announcements s of
        (None, s') \<Rightarrow> (Inr (), s')
      | (Some err, s') \<Rightarrow>
          (let s'' = log_msg (Error_writing err) s' in
           if backup s'' \<noteq> None then
             (case os_rename_backup_to_canonical e s'' of
                (Some err', s3) \<Rightarrow> (Inl err', s3)
              | (None, s3) \<Rightarrow> (Inl err, s3))
           else (Inl err, s'')))"

text \<open>\<^verbatim>\<open>_save_announcement\<close>: load, append, write.\<close>

definition save_announcement ::
  "'b env \<Rightarrow> announcement \<Rightarrow> 'b state \<Rightarrow> (error + unit) \<times> 'b state" where
  "save_announcement e announcement s =
     (case load_announcements e s of
        (announcements, s') \<Rightarrow> write_announcements e (announcements @ [announcement]) s')"

section \<open>Job table\<close>

text \<open>
  \<^verbatim>\<open>scheduler.remove_job(id)\<close> raises \<^verbatim>\<open>JobLookupError\<close> when no job has the id;
  \<^verbatim>\<open>scheduler.add_job(..., id=id, replace_existing=True)\<close> puts the trigger under the id.
\<close>

definition remove_job :: "string \<Rightarrow> 'b state \<Rightarrow> error + 'b state" where
  "remove_job job_id s =
     (if jobs s job_id = None then Inl JobLookupError
      else Inr (s\<lparr>jobs := (jobs s)(job_id := None)\<rparr>))"

definition add_job :: "trigger \<Rightarrow> string \<Rightarrow> 'b state \<Rightarrow> 'b state" where
  "add_job trg job_id s = s\<lparr>jobs := (jobs s)(job_id \<mapsto> trg)\<rparr>"

section \<open>Scheduler engine\<close>

text \<open>
  \<^verbatim>\<open>_schedule_job\<close>. The datetime is parsed first (a \<^verbatim>\<open>ValueError\<close> leaves the method),
  then a job already under the id is removed, whatever the recurrence; then the chain
  of comparisons on \<^verbatim>\<open>repeating\<close> builds the trigger, and its \<^verbatim>\<open>else\<close> logs and returns.
\<close>

definition build_trigger :: "datetime \<Rightarrow> string \<Rightarrow> trigger option" where
  "build_trigger announcement_time rep =
     (if rep = ''none'' then Some (DateTrigger announcement_time)
      else if rep = ''daily'' then
        Some (CronTrigger None None (hour announcement_time) (minute announcement_time))
      else if rep = ''weekly'' then
        Some (CronTrigger (Some (weekday announcement_time)) None
                (hour announcement_time) (minute announcement_time))
      else if rep = ''monthly'' then
        Some (CronTrigger None (Some (day announcement_time))
                (hour announcement_time) (minute announcement_time))
      else None)"

definition schedule_job :: "'b env \<Rightarrow> announcement \<Rightarrow> 'b state \<Rightarrow> (error + unit) \<times> 'b state" where
  "schedule_job e announcement s =
     (let announcement_id = ann_id announcement in
      case fromisoformat e (ann_datetime announcement) of
        None \<Rightarrow> (Inl ValueError, s)
      | Some announcement_time \<Rightarrow>
          (let s1 = (case remove_job announcement_id s of Inl _ \<Rightarrow> s | Inr s' \<Rightarrow> s') in
           case build_trigger announcement_time (repeating announcement) of
             None \<Rightarrow> (Inr (), log_msg (Error_unknown_repeating (repeating announcement)) s1)
           | Some trg \<Rightarrow>
               (Inr (), log_msg (Info_scheduled_job announcement_id (repeating announcement))
                          (add_job trg announcement_id s1))))"

text \<open>\<^verbatim>\<open>delete_announcement\<close>.\<close>

definition delete_announcement :: "'b env \<Rightarrow> string \<Rightarrow> 'b state \<Rightarrow> (error + bool) \<times> 'b state" where
  "delete_announcement e announcement_id s =
     (case load_announcements e s of
        (loaded, s1) \<Rightarrow>
          (let original_count = length loaded;
               announcements = filter (\<lambda>a. ann_id a \<noteq> announcement_id) loaded
           in if length announcements = original_count then (Inr False, s1)
              else (case write_announcements e announcements s1 of
                      (Inl err, s2) \<Rightarrow> (Inl err, s2)
                    | (Inr _, s2) \<Rightarrow>
                        (let s3 = (case remove_job announcement_id s2 of
                                     Inr s' \<Rightarrow> log_msg (Info_cancelled_job announcement_id) s'
                                   | Inl err \<Rightarrow>
                                       log_msg (Warning_could_not_cancel announcement_id err) s2)
                         in (Inr True, log_msg (Info_deleted announcement_id) s3)))))"

text \<open>\<^verbatim>\<open>get_all_announcements\<close>.\<close>

definition get_all_announcements :: "'b env \<Rightarrow> 'b state \<Rightarrow> announcement list \<times> 'b state" where
  "get_all_announcements e s = load_announcements e s"

text \<open>
  \<^verbatim>\<open>create_announcement\<close>: the dictionary is built, saved, scheduled, and returned.
\<close>

definition create_announcement ::
  "'b env \<Rightarrow> string \<Rightarrow> string \<Rightarrow> string option \<Rightarrow> string \<Rightarrow> string \<Rightarrow> int \<Rightarrow> int \<Rightarrow>
   string option \<Rightarrow> 'b state \<Rightarrow> (error + announcement) \<times> 'b state" where
  "create_announcement e announcement_type txt loc datetime_str rep rid creator ptime s =
     (let announcement = \<lparr>ann_id = uuid4 e, ann_type = announcement_type, ann_text = txt,
            location = loc, practice_time = ptime, ann_datetime = datetime_str,
            repeating = rep, role_id = rid, created_by = creator,
            created_at = isoformat e (now e)\<rparr>
      in case save_announcement e announcement s of
           (Inl err, s1) \<Rightarrow> (Inl err, s1)
         | (Inr _, s1) \<Rightarrow>
             (case schedule_job e announcement s1 of
                (Inl err, s2) \<Rightarrow> (Inl err, s2)
              | (Inr _, s2) \<Rightarrow>
                  (Inr announcement,
                   log_msg (Info_created (ann_id announcement) datetime_str) s2)))"

text \<open>
  The message of a firing. \<^verbatim>\<open>str(None)\<close> is \<^verbatim>\<open>'None'\<close> inside an f-string; the key
  \<^verbatim>\<open>practice_time\<close> is always present, so the default \<^verbatim>\<open>'TBD'\<close> of \<^verbatim>\<open>.get\<close> is never used.
\<close>

definition py_str :: "string option \<Rightarrow> string" where
  "py_str v = (case v of None \<Rightarrow> ''None'' | Some x \<Rightarrow> x)"

definition newline :: string where
  "newline = [CHR 0x0A]"

definition render_message :: "string \<Rightarrow> announcement \<Rightarrow> string" where
  "render_message role_mention announcement =
     (if ann_type announcement = ''practice'' then
        role_mention @ newline @ newline @ ''**Practice Announcement**'' @ newline @
        ''**Time:** '' @ py_str (practice_time announcement) @ newline @
        ''**Location:** '' @ py_str (location announcement)
      else role_mention @ newline @ newline @ ann_text announcement)"

text \<open>
  \<^verbatim>\<open>_execute_announcement\<close>, the firing callback. First the body of its \<^verbatim>\<open>try\<close>: the
  record is looked up in a fresh load, the channel and the role are resolved, the
  message is sent, and a record whose \<^verbatim>\<open>repeating\<close> is \<^verbatim>\<open>'none'\<close> is deleted.
\<close>

definition execute_body :: "'b env \<Rightarrow> string \<Rightarrow> 'b state \<Rightarrow> (error + unit) \<times> 'b state" where
  "execute_body e announcement_id s =
     (case load_announcements e s of
        (announcements, s1) \<Rightarrow>
          (case find (\<lambda>a. ann_id a = announcement_id) announcements of
             None \<Rightarrow> (Inr (), log_msg (Error_announcement_not_found announcement_id) s1)
           | Some announcement \<Rightarrow>
               (case channel_id e of
                  Inl err \<Rightarrow> (Inl err, s1)
                | Inr cid \<Rightarrow>
                    (case get_channel e cid of
                       None \<Rightarrow> (Inr (), log_msg (Error_channel_not_found cid) s1)
                     | Some chan \<Rightarrow>
                         (let role_mention =
                                (case get_role chan (role_id announcement) of
                                   Some mention \<Rightarrow> mention
                                 | None \<Rightarrow> []);
                              message = render_message role_mention announcement
                          in case send_error chan of
                               Some err \<Rightarrow> (Inl err, s1)
                             | None \<Rightarrow>
                                 (let s2 = log_msg (Info_sent announcement_id)
                                             (s1\<lparr>sent := sent s1 @ [message]\<rparr>)
                                  in if repeating announcement = ''none'' then
                                       (case delete_announcement e announcement_id s2 of
                                          (Inl err, s3) \<Rightarrow> (Inl err, s3)
                                        | (Inr _, s3) \<Rightarrow>
                                            (Inr (),
                                             log_msg (Info_removed_one_time announcement_id) s3))
                                     else (Inr (), s2)))))))"

text \<open>The handler \<^verbatim>\<open>except Exception\<close> around the whole body logs and returns.\<close>

definition execute_announcement ::
  "'b env \<Rightarrow> string \<Rightarrow> 'b state \<Rightarrow> (error + unit) \<times> 'b state" where
  "execute_announcement e announcement_id s =
     (case execute_body e announcement_id s of
        (Inl err, s') \<Rightarrow> (Inr (), log_msg (Error_executing announcement_id err) s')
      | (Inr _, s') \<Rightarrow> (Inr (), s'))"

text \<open>
  The loop of \<^verbatim>\<open>load_and_reschedule_announcements\<close>, with its two counters
  \<^verbatim>\<open>rescheduled\<close> and \<^verbatim>\<open>skipped\<close>. The test is
  \<^verbatim>\<open>announcement['repeating'] == 'none' and announcement_time < now\<close>: the comparison is
  evaluated for a one-shot only, and raises \<^verbatim>\<open>TypeError\<close> when the stored datetime is
  aware. Nothing in the loop catches an exception.
\<close>

fun reschedule_loop ::
  "'b env \<Rightarrow> announcement list \<Rightarrow> nat \<Rightarrow> nat \<Rightarrow> 'b state \<Rightarrow> (error + nat \<times> nat) \<times> 'b state" where
  "reschedule_loop e [] rescheduled skipped s = (Inr (rescheduled, skipped), s)"
| "reschedule_loop e (announcement # rest) rescheduled skipped s =
     (case fromisoformat e (ann_datetime announcement) of
        None \<Rightarrow> (Inl ValueError, s)
      | Some announcement_time \<Rightarrow>
          (case (if repeating announcement = ''none'' then dt_less announcement_time (now e)
                 else Inr False) of
             Inl err \<Rightarrow> (Inl err, s)
           | Inr in_the_past \<Rightarrow>
               if in_the_past then
                 reschedule_loop e rest rescheduled (skipped + 1)
                   (log_msg (Info_skipping_missed (ann_id announcement)) s)
               else
                 (case schedule_job e announcement s of
                    (Inl err, s') \<Rightarrow> (Inl err, s')
                  | (Inr _, s') \<Rightarrow> reschedule_loop e rest (rescheduled + 1) skipped s')))"

definition load_and_reschedule_announcements ::
  "'b env \<Rightarrow> 'b state \<Rightarrow> (error + unit) \<times> 'b state" where
  "load_and_reschedule_announcements e s =
     (case load_announcements e s of
        (announcements, s1) \<Rightarrow>
          (case reschedule_loop e announcements 0 0 s1 of
             (Inl err, s2) \<Rightarrow> (Inl err, s2)
           | (Inr (rescheduled, skipped), s2) \<Rightarrow>
               (Inr (), log_msg (Info_rescheduled rescheduled skipped) s2)))"

text \<open>
  \<^verbatim>\<open>initialize\<close>: \<^verbatim>\<open>scheduler.start()\<close>, which raises on a scheduler that already runs,
  then the recovery.
\<close>

definition initialize :: "'b env \<Rightarrow> 'b state \<Rightarrow> (error + unit) \<times> 'b state" where
  "initialize e s =
     (if running s then (Inl SchedulerAlreadyRunningError, s)
      else load_and_reschedule_announcements e
             (log_msg Info_scheduler_started (s\<lparr>running := True\<rparr>)))"

section \<open>What a trigger means\<close>


section \<open>Notions used in the statements\<close>

text \<open>The stored collection: what a load returns.\<close>

definition stored :: "'b env \<Rightarrow> 'b state \<Rightarrow> announcement list" where
  "stored e s = fst (load_announcements e s)"

text \<open>\<^verbatim>\<open>json.loads(json.dumps(d)) == d\<close> for the documents the module writes.\<close>

definition codec_ok :: "'b env \<Rightarrow> bool" where
  "codec_ok e = (\<forall>d. loads e (dumps e d) = Some d)"

text \<open>No call of the \<^verbatim>\<open>try\<close> block of \<^verbatim>\<open>_write_announcements\<close> raises.\<close>

definition writes_succeed :: "'b env \<Rightarrow> bool" where
  "writes_succeed e =
     (\<not> fail_remove_backup (faults e) \<and> \<not> fail_rename_backup (faults e) \<and>
      \<not> fail_write_temp (faults e) \<and> \<not> fail_swap (faults e))"

text \<open>The recurrence literals that \<^verbatim>\<open>_schedule_job\<close> compares with.\<close>

definition recognised :: "string \<Rightarrow> bool" where
  "recognised rep = (rep = ''none'' \<or> rep = ''daily'' \<or> rep = ''weekly'' \<or> rep = ''monthly'')"

text \<open>
  The test of the recovery loop for a missed one-shot: \<^verbatim>\<open>repeating\<close> is \<^verbatim>\<open>'none'\<close> and
  the parsed datetime is strictly before \<^verbatim>\<open>now\<close>.
\<close>

definition missed :: "'b env \<Rightarrow> announcement \<Rightarrow> bool" where
  "missed e a =
     (case fromisoformat e (ann_datetime a) of
        None \<Rightarrow> False
      | Some t \<Rightarrow> repeating a = ''none'' \<and> dt_less t (now e) = Inr True)"

text \<open>
  The exception that the recovery loop raises on a stored announcement before it
  comes to schedule it, if any: \<^verbatim>\<open>ValueError\<close> from \<^verbatim>\<open>fromisoformat\<close>, or the
  \<^verbatim>\<open>TypeError\<close> of the comparison with \<^verbatim>\<open>now\<close> for a one-shot.
\<close>

definition raised :: "'b env \<Rightarrow> announcement \<Rightarrow> error option" where
  "raised e a =
     (case fromisoformat e (ann_datetime a) of
        None \<Rightarrow> Some ValueError
      | Some t \<Rightarrow>
          if repeating a = ''none'' then
            (case dt_less t (now e) of Inl err \<Rightarrow> Some err | Inr _ \<Rightarrow> None)
          else None)"

text \<open>
  The stored datetime of an announcement parses, and for a one-shot it parses to a
  naive datetime, one that can be compared with \<^verbatim>\<open>datetime.now()\<close>.
\<close>

definition naive_dated :: "'b env \<Rightarrow> announcement \<Rightarrow> bool" where
  "naive_dated e a =
     (case fromisoformat e (ann_datetime a) of
        None \<Rightarrow> False
      | Some t \<Rightarrow> repeating a = ''none'' \<longrightarrow> utcoffset t = None)"

text \<open>The trigger that \<^verbatim>\<open>_schedule_job\<close> builds for a stored announcement, if any.\<close>

definition rule_of :: "'b env \<Rightarrow> announcement \<Rightarrow> trigger option" where
  "rule_of e a =
     (case fromisoformat e (ann_datetime a) of
        None \<Rightarrow> None
      | Some t \<Rightarrow> build_trigger t (repeating a))"

text \<open>
  Two names for the firing callback: the mention that \<^verbatim>\<open>role.mention if role else ''\<close>
  yields, and the state right after \<^verbatim>\<open>channel.send\<close> returned and its success was
  logged.
\<close>

definition mention_of :: "channel \<Rightarrow> announcement \<Rightarrow> string" where
  "mention_of chan a = (case get_role chan (role_id a) of Some mention \<Rightarrow> mention | None \<Rightarrow> [])"

definition after_send :: "'b env \<Rightarrow> string \<Rightarrow> channel \<Rightarrow> announcement \<Rightarrow> 'b state \<Rightarrow> 'b state" where
  "after_send e aid chan a s =
     log_msg (Info_sent aid)
       ((snd (load_announcements e s))
          \<lparr>sent := sent s @ [render_message (mention_of chan a) a]\<rparr>)"

section \<open>An example environment\<close>

text \<open>
  A concrete world to run the module in: the bytes of a file are its JSON value, and
  \<^verbatim>\<open>fromisoformat\<close> reads the formats \<^verbatim>\<open>YYYY-MM-DDTHH:MM:SS\<close> and
  \<^verbatim>\<open>YYYY-MM-DDTHH:MM:SS+HH:MM\<close> that \<^verbatim>\<open>isoformat()\<close> writes for a naive and for an aware
  datetime with whole seconds.
\<close>

definition digit :: "char \<Rightarrow> nat option" where
  "digit c = (let n = (of_char c :: nat) in if 48 \<le> n \<and> n \<le> 57 then Some (n - 48) else None)"

fun parse_nat :: "nat \<Rightarrow> string \<Rightarrow> nat option" where
  "parse_nat acc [] = Some acc"
| "parse_nat acc (c # cs) =
     (case digit c of None \<Rightarrow> None | Some d \<Rightarrow> parse_nat (acc * 10 + d) cs)"

definition field :: "nat \<Rightarrow> nat \<Rightarrow> string \<Rightarrow> nat option" where
  "field start len str = parse_nat 0 (take len (drop start str))"

definition parse_naive :: "string \<Rightarrow> datetime option" where
  "parse_naive str =
     (if length str = 19 \<and> str ! 4 = CHR ''-'' \<and> str ! 7 = CHR ''-'' \<and> str ! 10 = CHR ''T'' \<and>
         str ! 13 = CHR '':'' \<and> str ! 16 = CHR '':'' then
        (case (field 0 4 str, field 5 2 str, field 8 2 str,
               field 11 2 str, field 14 2 str, field 17 2 str) of
           (Some y, Some mo, Some d, Some h, Some mi, Some se) \<Rightarrow>
             if 1 \<le> y \<and> 1 \<le> mo \<and> mo \<le> 12 \<and> 1 \<le> d \<and>
                d \<le> days_in_month ! (mo - 1) + (if mo = 2 \<and> is_leap y then 1 else 0) \<and>
                h < 24 \<and> mi < 60 \<and> se < 60
             then Some \<lparr>year = y, month = mo, day = d, hour = h, minute = mi, second = se,
                         microsecond = 0, utcoffset = None\<rparr>
             else None
         | _ \<Rightarrow> None)
      else None)"

definition parse_offset :: "string \<Rightarrow> int option" where
  "parse_offset str =
     (if length str = 6 \<and> (str ! 0 = CHR ''+'' \<or> str ! 0 = CHR ''-'') \<and> str ! 3 = CHR '':'' then
        (case (field 1 2 str, field 4 2 str) of
           (Some h, Some mi) \<Rightarrow>
             if h < 24 \<and> mi < 60 then
               Some ((if str ! 0 = CHR ''-'' then - 1 else 1) * (int h * 3600 + int mi * 60))
             else None
         | _ \<Rightarrow> None)
      else None)"

definition parse_iso :: "string \<Rightarrow> datetime option" where
  "parse_iso str =
     (if length str = 19 then parse_naive str
      else (case (parse_naive (take 19 str), parse_offset (drop 19 str)) of
              (Some d, Some off) \<Rightarrow> Some (d\<lparr>utcoffset := Some off\<rparr>)
            | _ \<Rightarrow> None))"

definition digit_char :: "nat \<Rightarrow> char" where
  "digit_char n = char_of (48 + n mod 10)"

definition pad2 :: "nat \<Rightarrow> string" where
  "pad2 n = [digit_char (n div 10), digit_char n]"

definition format_offset :: "int \<Rightarrow> string" where
  "format_offset off =
     (if off < 0 then ''-'' else ''+'') @ pad2 (nat \<bar>off\<bar> div 3600) @ '':'' @
     pad2 (nat \<bar>off\<bar> div 60 mod 60)"

definition format_iso :: "datetime \<Rightarrow> string" where
  "format_iso d =
     pad2 (year d div 100) @ pad2 (year d) @ ''-'' @ pad2 (month d) @ ''-'' @ pad2 (day d) @
     ''T'' @ pad2 (hour d) @ '':'' @ pad2 (minute d) @ '':'' @ pad2 (second d) @
     (case utcoffset d of None \<Rightarrow> [] | Some off \<Rightarrow> format_offset off)"

definition ex_channel :: channel where
  "ex_channel = \<lparr>get_role = [7 \<mapsto> ''@team''], send_error = None\<rparr>"

definition ex_now :: datetime where
  "ex_now = \<lparr>year = 2026, month = 1, day = 1, hour = 12, minute = 0, second = 0,
     microsecond = 0, utcoffset = None\<rparr>"

definition ex_env :: "json env" where
  "ex_env = \<lparr>loads = Some, dumps = (\<lambda>d. d), fromisoformat = parse_iso,
     isoformat = format_iso, now = ex_now, uuid4 = ''id-new'', faults = no_faults,
     channel_id = Inr 42, get_channel = [42 \<mapsto> ex_channel]\<rparr>"

text \<open>The same world where the swap of the temporary file into place raises.\<close>

definition ex_env_swap_fails :: "json env" where
  "ex_env_swap_fails = ex_env\<lparr>faults := no_faults\<lparr>fail_swap := True\<rparr>\<rparr>"

text \<open>The same world where the swap raises and the restoring rename of the handler too.\<close>

definition ex_env_restore_fails :: "json env" where
  "ex_env_restore_fails = ex_env\<lparr>faults := no_faults\<lparr>fail_swap := True, fail_restore := True\<rparr>\<rparr>"

text \<open>The same world where \<^verbatim>\<open>channel.send\<close> raises.\<close>

definition ex_env_send_fails :: "json env" where
  "ex_env_send_fails =
     ex_env\<lparr>get_channel := [42 \<mapsto> ex_channel\<lparr>send_error := Some HTTPException\<rparr>]\<rparr>"

text \<open>
  Stored announcements: the practice announcement of the specification's scenario (a
  one-shot in the future of \<open>ex_now\<close>), a weekly one, a one-shot in the past, one with
  a recurrence outside the recognised literals, and one whose datetime does not parse.
\<close>

definition ex_practice :: announcement where
  "ex_practice = \<lparr>ann_id = ''a1'', ann_type = ''practice'', ann_text = [],
     location = Some ''Gym A'', practice_time = Some ''7pm-10pm'',
     ann_datetime = ''2026-02-15T16:00:00'', repeating = ''none'', role_id = 7,
     created_by = 1, created_at = ''2025-12-24T10:00:00''\<rparr>"

definition ex_weekly :: announcement where
  "ex_weekly = \<lparr>ann_id = ''a2'', ann_type = ''custom'', ann_text = ''Team meeting'',
     location = None, practice_time = None,
     ann_datetime = ''2025-11-03T18:30:00'', repeating = ''weekly'', role_id = 7,
     created_by = 1, created_at = ''2025-10-30T10:00:00''\<rparr>"

definition ex_missed :: announcement where
  "ex_missed = \<lparr>ann_id = ''a3'', ann_type = ''custom'', ann_text = ''Bring water'',
     location = None, practice_time = None,
     ann_datetime = ''2025-06-01T09:00:00'', repeating = ''none'', role_id = 7,
     created_by = 1, created_at = ''2025-05-30T10:00:00''\<rparr>"

definition ex_yearly :: announcement where
  "ex_yearly = \<lparr>ann_id = ''a4'', ann_type = ''custom'', ann_text = ''Anniversary'',
     location = None, practice_time = None,
     ann_datetime = ''2026-03-01T10:00:00'', repeating = ''yearly'', role_id = 7,
     created_by = 1, created_at = ''2025-05-30T10:00:00''\<rparr>"

definition ex_unparsable :: announcement where
  "ex_unparsable = \<lparr>ann_id = ''a5'', ann_type = ''custom'', ann_text = ''Auditions'',
     location = None, practice_time = None,
     ann_datetime = ''next tuesday'', repeating = ''weekly'', role_id = 7,
     created_by = 1, created_at = ''2025-05-30T10:00:00''\<rparr>"

text \<open>
  Two more: a one-shot whose datetime carries an offset, and a weekly announcement
  whose datetime has seconds.
\<close>

definition ex_aware :: announcement where
  "ex_aware = \<lparr>ann_id = ''a6'', ann_type = ''custom'', ann_text = ''Workshop'',
     location = None, practice_time = None,
     ann_datetime = ''2026-02-20T18:00:00+00:00'', repeating = ''none'', role_id = 7,
     created_by = 1, created_at = ''2025-12-24T10:00:00''\<rparr>"

definition ex_weekly_seconds :: announcement where
  "ex_weekly_seconds = \<lparr>ann_id = ''a7'', ann_type = ''custom'', ann_text = ''Stretching'',
     location = None, practice_time = None,
     ann_datetime = ''2026-02-15T16:00:30'', repeating = ''weekly'', role_id = 7,
     created_by = 1, created_at = ''2025-12-24T10:00:00''\<rparr>"

text \<open>A fresh process over a canonical file that holds the given collection.\<close>

definition ex_state :: "announcement list \<Rightarrow> json state" where
  "ex_state announcements =
     \<lparr>canonical = Some (JObject [(''announcements'', announcements)]), backup = None,
      temp = None, jobs = Map.empty, running = False, sent = [], logged = []\<rparr>"

text \<open>
  No canonical file, and a backup left behind by an earlier write: the files as they
  are after a write whose swap and whose restoring rename both raised, or after the
  canonical file was removed from outside.
\<close>

definition ex_state_leftover_backup :: "json state" where
  "ex_state_leftover_backup =
     \<lparr>canonical = None, backup = Some (JObject [(''announcements'', [ex_missed])]),
      temp = None, jobs = Map.empty, running = False, sent = [], logged = []\<rparr>"

text \<open>The record that \<^verbatim>\<open>create_announcement\<close> builds in the example world.\<close>

definition ex_created :: announcement where
  "ex_created = \<lparr>ann_id = ''id-new'', ann_type = ''practice'', ann_text = [],
     location = Some ''Gym A'', practice_time = Some ''7pm-10pm'',
     ann_datetime = ''2026-02-15T16:00:00'', repeating = ''none'', role_id = 7,
     created_by = 1, created_at = ''2026-01-01T12:00:00''\<rparr>"

section \<open>Lemmas on the store\<close>

lemma load_announcements_fields:
  "canonical (snd (load_announcements e s)) = canonical s"
  "backup (snd (load_announcements e s)) = backup s"
  "temp (snd (load_announcements e s)) = temp s"
  "jobs (snd (load_announcements e s)) = jobs s"
  "running (snd (load_announcements e s)) = running s"
  "sent (snd (load_announcements e s)) = sent s"
  by (simp_all add: load_announcements_def log_msg_def split: sum.splits)

lemma load_body_cong:
  "canonical s' = canonical s \<Longrightarrow> load_body e s' = load_body e s"
  by (simp add: load_body_def)

lemma stored_cong:
  "canonical s' = canonical s \<Longrightarrow> stored e s' = stored e s"
  by (simp add: stored_def load_announcements_def load_body_cong [of s' s] split: sum.splits)

lemma stored_written:
  assumes "codec_ok e" and "\<not> fail_read (faults e)"
    and "canonical s = Some (dumps e (JObject [(''announcements'', anns)]))"
  shows "stored e s = anns"
  using assms by (simp add: stored_def load_announcements_def load_body_def codec_ok_def)

lemma write_announcements_ok:
  assumes "writes_succeed e"
  shows "write_announcements e anns s =
    (Inr (), log_msg Debug_saved
       (s\<lparr>backup := (if canonical s \<noteq> None then canonical s else backup s),
          canonical := Some (dumps e (JObject [(''announcements'', anns)])),
          temp := None\<rparr>))"
  using assms
  by (cases "canonical s"; cases "backup s")
     (simp_all add: writes_succeed_def write_announcements_def write_body_def make_backup_def
       and_then_def os_remove_backup_def os_rename_canonical_to_backup_def write_temp_file_def
       os_rename_temp_to_canonical_def log_msg_def)

text \<open>
  The one state in which a failed swap does not leave the canonical file as it was:
  no canonical file, but a backup left over from before. The handler then installs
  that backup as the canonical file.
\<close>

lemma write_failure_installs_leftover_backup:
  assumes "fail_swap (faults e)" and "\<not> fail_write_temp (faults e)"
    and "\<not> fail_restore (faults e)"
    and "canonical s = None" and "backup s = Some old"
  shows "canonical (snd (write_announcements e anns s)) = Some old"
  using assms
  by (simp add: write_announcements_def write_body_def make_backup_def
       and_then_def write_temp_file_def
       os_rename_temp_to_canonical_def os_rename_backup_to_canonical_def log_msg_def Let_def)

lemma ex_env_swap_fails_faults:
  "fail_swap (faults ex_env_swap_fails)"
  "\<not> fail_remove_backup (faults ex_env_swap_fails)"
  "\<not> fail_rename_backup (faults ex_env_swap_fails)"
  "\<not> fail_write_temp (faults ex_env_swap_fails)"
  "\<not> fail_restore (faults ex_env_swap_fails)"
  by (simp_all add: ex_env_swap_fails_def ex_env_def no_faults_def)

section \<open>Store: a write that fails at the swap\<close>

text \<open>
  Claim C2, as the code has it. The handler moves back whatever is in the backup
  slot, so the claim holds from the pre-states in which the backup slot is the call's
  own: the canonical file exists (the call then makes the backup itself), or neither
  it nor a backup does. From such a state, when \<^verbatim>\<open>_write_announcements\<close> fails after the
  temporary file is written and before it is swapped into place (the \<^verbatim>\<open>os.rename\<close> of
  the temporary file onto the canonical one raises, everything before it went through,
  and the handler's own rename goes through), the call raises that \<^verbatim>\<open>OSError\<close> to its
  caller and the canonical file holds exactly the bytes it held before the call: the
  backup made at the start of the call is moved back. The temporary file stays behind
  and the failure is logged.
\<close>

theorem write_failure_at_swap_restores_canonical:
  assumes "fail_swap (faults e)"
    and "\<not> fail_remove_backup (faults e)" and "\<not> fail_rename_backup (faults e)"
    and "\<not> fail_write_temp (faults e)" and "\<not> fail_restore (faults e)"
    and "canonical s \<noteq> None \<or> backup s = None"
  shows "fst (write_announcements e anns s) = Inl OSError \<and>
         canonical (snd (write_announcements e anns s)) = canonical s \<and>
         temp (snd (write_announcements e anns s)) =
           Some (dumps e (JObject [(''announcements'', anns)])) \<and>
         Error_writing OSError \<in> set (logged (snd (write_announcements e anns s)))"
  using assms
  by (cases "canonical s"; cases "backup s")
     (simp_all add: write_announcements_def write_body_def make_backup_def
       and_then_def os_remove_backup_def os_rename_canonical_to_backup_def write_temp_file_def
       os_rename_temp_to_canonical_def os_rename_backup_to_canonical_def log_msg_def Let_def)

theorem write_failure_at_swap_restores_canonical_witness:
  "fst (write_announcements ex_env_swap_fails [ex_weekly] (ex_state [ex_practice])) = Inl OSError \<and>
   canonical (snd (write_announcements ex_env_swap_fails [ex_weekly] (ex_state [ex_practice]))) =
     Some (JObject [(''announcements'', [ex_practice])])"
proof -
  have pre: "canonical (ex_state [ex_practice]) \<noteq> None \<or> backup (ex_state [ex_practice]) = None"
    by (simp add: ex_state_def)
  show ?thesis
    using write_failure_at_swap_restores_canonical
      [OF ex_env_swap_fails_faults pre, of "[ex_weekly]"]
    by (simp add: ex_state_def)
qed

text \<open>
  No canonical file before the call, and a backup left behind by an earlier write (as
  after a write whose swap and restoring rename both raised): the write that fails at
  the swap raises \<^verbatim>\<open>OSError\<close> and leaves a canonical file, holding the bytes of that
  backup, where there was none before the call.
\<close>

theorem write_failure_stale_backup_counterexample:
  "canonical ex_state_leftover_backup = None \<and>
   fst (write_announcements ex_env_swap_fails [ex_weekly] ex_state_leftover_backup) =
     Inl OSError \<and>
   canonical (snd (write_announcements ex_env_swap_fails [ex_weekly] ex_state_leftover_backup)) =
     Some (JObject [(''announcements'', [ex_missed])]) \<and>
   canonical (snd (write_announcements ex_env_swap_fails [ex_weekly] ex_state_leftover_backup)) \<noteq>
     canonical ex_state_leftover_backup \<and>
   canonical (snd (write_announcements ex_env_restore_fails [ex_weekly] (ex_state [ex_missed]))) =
     canonical ex_state_leftover_backup \<and>
   backup (snd (write_announcements ex_env_restore_fails [ex_weekly] (ex_state [ex_missed]))) =
     backup ex_state_leftover_backup"
  by (simp add: write_announcements_def write_body_def make_backup_def and_then_def
      os_remove_backup_def os_rename_canonical_to_backup_def write_temp_file_def
      os_rename_temp_to_canonical_def os_rename_backup_to_canonical_def log_msg_def Let_def
      ex_state_leftover_backup_def ex_state_def ex_env_swap_fails_def ex_env_restore_fails_def
      ex_env_def no_faults_def)

section \<open>Store: a file without the key\<close>

text \<open>
  Claim C10. When the canonical file exists and parses as a JSON object that has no
  key \<^verbatim>\<open>announcements\<close>, \<^verbatim>\<open>_load_announcements\<close> returns the empty list, as it does when
  the file is absent; when the read itself goes through, nothing is raised inside the
  method either and nothing is logged.
\<close>

theorem load_object_without_announcements_key:
  assumes "canonical s = Some content" and "loads e content = Some (JObject data)"
    and "map_of data ''announcements'' = None"
  shows "fst (load_announcements e s) = [] \<and>
         fst (load_announcements e (s\<lparr>canonical := None\<rparr>)) = [] \<and>
         (\<not> fail_read (faults e) \<longrightarrow> load_body e s = Inr [] \<and> load_announcements e s = ([], s))"
  using assms by (simp add: load_announcements_def load_body_def)

theorem load_object_without_announcements_key_witness:
  "load_body ex_env (ex_state []\<lparr>canonical := Some (JObject [(''version'', [])])\<rparr>) = Inr [] \<and>
   fst (load_announcements ex_env (ex_state []\<lparr>canonical := Some (JObject [(''version'', [])])\<rparr>)) = []"
proof -
  have a: "canonical (ex_state []\<lparr>canonical := Some (JObject [(''version'', [])])\<rparr>)
           = Some (JObject [(''version'', [])])" by simp
  have b: "loads ex_env (JObject [(''version'', [])]) = Some (JObject [(''version'', [])])"
    by (simp add: ex_env_def)
  have c: "map_of [(''version'', ([] :: announcement list))] ''announcements'' = None" by simp
  have d: "\<not> fail_read (faults ex_env)" by (simp add: ex_env_def no_faults_def)
  show ?thesis
    using load_object_without_announcements_key [OF a b c] d by simp
qed

section \<open>Lemmas on delete and create\<close>

lemma length_filter_eq_iff:
  "length (filter P xs) = length xs \<longleftrightarrow> (\<forall>x\<in>set xs. P x)"
proof
  assume "length (filter P xs) = length xs"
  then show "\<forall>x\<in>set xs. P x"
    using length_filter_less [of _ xs P] by fastforce
next
  assume "\<forall>x\<in>set xs. P x"
  then show "length (filter P xs) = length xs" by simp
qed

lemma delete_announcement_absent:
  assumes "\<forall>a\<in>set (stored e s). ann_id a \<noteq> aid"
  shows "delete_announcement e aid s = (Inr False, snd (load_announcements e s))"
  using assms
  by (simp add: delete_announcement_def stored_def length_filter_eq_iff Let_def
      split: prod.splits)

lemma delete_announcement_present:
  assumes "\<exists>a\<in>set (stored e s). ann_id a = aid" and "writes_succeed e"
  shows "fst (delete_announcement e aid s) = Inr True"
    and "canonical (snd (delete_announcement e aid s)) =
           Some (dumps e (JObject [(''announcements'',
                                   filter (\<lambda>a. ann_id a \<noteq> aid) (stored e s))]))"
    and "jobs (snd (delete_announcement e aid s)) = (jobs s)(aid := None)"
    and "sent (snd (delete_announcement e aid s)) = sent s"
proof -
  obtain loaded s1 where l: "load_announcements e s = (loaded, s1)"
    by (cases "load_announcements e s")
  have st: "stored e s = loaded" by (simp add: stored_def l)
  have s1: "jobs s1 = jobs s" "sent s1 = sent s"
    using load_announcements_fields [of e s] by (simp_all add: l)
  have ne: "length (filter (\<lambda>a. ann_id a \<noteq> aid) loaded) \<noteq> length loaded"
    using assms(1) by (auto simp: length_filter_eq_iff st)
  show "fst (delete_announcement e aid s) = Inr True"
    using ne by (simp add: delete_announcement_def l Let_def write_announcements_ok [OF assms(2)]
        split: sum.splits)
  show "canonical (snd (delete_announcement e aid s)) =
           Some (dumps e (JObject [(''announcements'',
                                   filter (\<lambda>a. ann_id a \<noteq> aid) (stored e s))]))"
    using ne by (simp add: delete_announcement_def l st Let_def
        write_announcements_ok [OF assms(2)] remove_job_def log_msg_def split: sum.splits)
  show "jobs (snd (delete_announcement e aid s)) = (jobs s)(aid := None)"
    using ne by (auto simp add: delete_announcement_def l st s1 Let_def
        write_announcements_ok [OF assms(2)] remove_job_def log_msg_def split: sum.splits)
  show "sent (snd (delete_announcement e aid s)) = sent s"
    using ne by (simp add: delete_announcement_def l st s1 Let_def
        write_announcements_ok [OF assms(2)] remove_job_def log_msg_def split: sum.splits)
qed

lemma stored_after_delete:
  assumes "\<exists>a\<in>set (stored e s). ann_id a = aid" and "writes_succeed e"
    and "codec_ok e" and "\<not> fail_read (faults e)"
  shows "stored e (snd (delete_announcement e aid s)) =
           filter (\<lambda>a. ann_id a \<noteq> aid) (stored e s)"
  using stored_written [OF assms(3,4) delete_announcement_present(2) [OF assms(1,2)]] .

lemma delete_announcement_files_absent:
  assumes "\<forall>a\<in>set (stored e s). ann_id a \<noteq> aid"
  shows "canonical (snd (delete_announcement e aid s)) = canonical s"
    and "backup (snd (delete_announcement e aid s)) = backup s"
    and "temp (snd (delete_announcement e aid s)) = temp s"
    and "jobs (snd (delete_announcement e aid s)) = jobs s"
    and "sent (snd (delete_announcement e aid s)) = sent s"
  by (simp_all add: delete_announcement_absent [OF assms] load_announcements_fields)

lemma schedule_job_fields:
  "canonical (snd (schedule_job e a s)) = canonical s"
  "backup (snd (schedule_job e a s)) = backup s"
  "temp (snd (schedule_job e a s)) = temp s"
  "sent (snd (schedule_job e a s)) = sent s"
  "running (snd (schedule_job e a s)) = running s"
  by (simp_all add: schedule_job_def remove_job_def add_job_def log_msg_def Let_def
      split: option.splits)

lemma save_announcement_ok:
  assumes "writes_succeed e"
  shows "fst (save_announcement e a s) = Inr ()"
    and "canonical (snd (save_announcement e a s)) =
           Some (dumps e (JObject [(''announcements'', stored e s @ [a])]))"
  by (simp_all add: save_announcement_def stored_def write_announcements_ok [OF assms]
      log_msg_def split: prod.splits)

lemma stored_after_create:
  assumes "fst (create_announcement e ty txt loc dt rep rid cb pt s) = Inr a"
    and "writes_succeed e" and "codec_ok e" and "\<not> fail_read (faults e)"
  shows "ann_id a = uuid4 e"
    and "stored e (snd (create_announcement e ty txt loc dt rep rid cb pt s)) = stored e s @ [a]"
proof -
  define a0 where "a0 = \<lparr>ann_id = uuid4 e, ann_type = ty, ann_text = txt, location = loc,
     practice_time = pt, ann_datetime = dt, repeating = rep, role_id = rid, created_by = cb,
     created_at = isoformat e (now e)\<rparr>"
  obtain r1 s1 where sv: "save_announcement e a0 s = (r1, s1)"
    by (cases "save_announcement e a0 s")
  obtain r2 s2 where sj: "schedule_job e a0 s1 = (r2, s2)"
    by (cases "schedule_job e a0 s1")
  have r1: "r1 = Inr ()"
    using save_announcement_ok(1) [OF assms(2), of a0 s] by (simp add: sv)
  have c1: "canonical s1 = Some (dumps e (JObject [(''announcements'', stored e s @ [a0])]))"
    using save_announcement_ok(2) [OF assms(2), of a0 s] by (simp add: sv)
  have c2: "canonical s2 = canonical s1"
    using schedule_job_fields(1) [of e a0 s1] by (simp add: sj)
  have cr: "create_announcement e ty txt loc dt rep rid cb pt s =
     (case r2 of Inl err \<Rightarrow> (Inl err, s2)
      | Inr u \<Rightarrow> (Inr a0, log_msg (Info_created (ann_id a0) dt) s2))"
    by (simp add: create_announcement_def a0_def [symmetric] sv r1 sj Let_def)
  have a: "a = a0"
    using assms(1) by (simp add: cr split: sum.splits)
  show "ann_id a = uuid4 e" by (simp add: a a0_def)
  have "canonical (snd (create_announcement e ty txt loc dt rep rid cb pt s)) =
        Some (dumps e (JObject [(''announcements'', stored e s @ [a])]))"
    using assms(1) by (simp add: cr c1 c2 a log_msg_def split: sum.splits)
  from stored_written [OF assms(3,4) this]
  show "stored e (snd (create_announcement e ty txt loc dt rep rid cb pt s)) = stored e s @ [a]" .
qed

lemma ex_env_ok:
  "codec_ok ex_env" "writes_succeed ex_env" "\<not> fail_read (faults ex_env)"
  by (simp_all add: codec_ok_def writes_succeed_def ex_env_def no_faults_def)

lemma stored_ex_state: "stored ex_env (ex_state anns) = anns"
  by (simp add: stored_def load_announcements_def load_body_def ex_env_def ex_state_def
      no_faults_def)

lemma parse_iso_examples:
  "parse_iso ''2026-02-15T16:00:00'' =
     Some \<lparr>year = 2026, month = 2, day = 15, hour = 16, minute = 0, second = 0, microsecond = 0, utcoffset = None\<rparr>"
  "parse_iso ''2025-11-03T18:30:00'' =
     Some \<lparr>year = 2025, month = 11, day = 3, hour = 18, minute = 30, second = 0, microsecond = 0, utcoffset = None\<rparr>"
  "parse_iso ''2025-06-01T09:00:00'' =
     Some \<lparr>year = 2025, month = 6, day = 1, hour = 9, minute = 0, second = 0, microsecond = 0, utcoffset = None\<rparr>"
  "parse_iso ''2026-03-01T10:00:00'' =
     Some \<lparr>year = 2026, month = 3, day = 1, hour = 10, minute = 0, second = 0, microsecond = 0, utcoffset = None\<rparr>"
  "parse_iso ''next tuesday'' = None"
  by code_simp+

lemma parse_iso_more_examples:
  "parse_iso ''2026-02-20T18:00:00+00:00'' =
     Some \<lparr>year = 2026, month = 2, day = 20, hour = 18, minute = 0, second = 0,
       microsecond = 0, utcoffset = Some 0\<rparr>"
  "parse_iso ''2026-02-15T16:00:30'' =
     Some \<lparr>year = 2026, month = 2, day = 15, hour = 16, minute = 0, second = 30,
       microsecond = 0, utcoffset = None\<rparr>"
  by code_simp+

lemma ex_create:
  "fst (create_announcement ex_env ''practice'' [] (Some ''Gym A'') ''2026-02-15T16:00:00''
          ''none'' 7 1 (Some ''7pm-10pm'') (ex_state [])) = Inr ex_created"
  by code_simp

section \<open>Delete\<close>

text \<open>
  Claim C7. \<^verbatim>\<open>delete_announcement(id)\<close>: when no record of the stored collection has
  the id, it returns \<^verbatim>\<open>False\<close> and the three files and the job table are as before
  (nothing is written). When a record has the id (with a file system whose calls go
  through and a JSON codec that reads back what it wrote), it returns \<^verbatim>\<open>True\<close>, the
  canonical file holds the collection without the records of that id, and a second
  delete of the id returns \<^verbatim>\<open>False\<close>. In particular the id of an announcement that
  \<^verbatim>\<open>create_announcement\<close> just returned is deleted with \<^verbatim>\<open>True\<close>, and then with
  \<^verbatim>\<open>False\<close>.
\<close>

theorem delete_announcement_found_or_not:
  "((\<forall>a\<in>set (stored e s). ann_id a \<noteq> aid) \<longrightarrow>
      fst (delete_announcement e aid s) = Inr False \<and>
      canonical (snd (delete_announcement e aid s)) = canonical s \<and>
      backup (snd (delete_announcement e aid s)) = backup s \<and>
      temp (snd (delete_announcement e aid s)) = temp s \<and>
      jobs (snd (delete_announcement e aid s)) = jobs s) \<and>
   (codec_ok e \<and> writes_succeed e \<and> \<not> fail_read (faults e) \<longrightarrow>
      ((\<exists>a\<in>set (stored e s). ann_id a = aid) \<longrightarrow>
         fst (delete_announcement e aid s) = Inr True \<and>
         canonical (snd (delete_announcement e aid s)) =
           Some (dumps e (JObject [(''announcements'',
                                   filter (\<lambda>a. ann_id a \<noteq> aid) (stored e s))])) \<and>
         stored e (snd (delete_announcement e aid s)) =
           filter (\<lambda>a. ann_id a \<noteq> aid) (stored e s) \<and>
         fst (delete_announcement e aid (snd (delete_announcement e aid s))) = Inr False) \<and>
      (fst (create_announcement e ty txt loc dt rep rid cb pt s) = Inr a \<longrightarrow>
         fst (delete_announcement e (ann_id a)
               (snd (create_announcement e ty txt loc dt rep rid cb pt s))) = Inr True \<and>
         fst (delete_announcement e (ann_id a)
               (snd (delete_announcement e (ann_id a)
                 (snd (create_announcement e ty txt loc dt rep rid cb pt s))))) = Inr False))"
proof (intro conjI impI)
  assume "\<forall>a\<in>set (stored e s). ann_id a \<noteq> aid"
  then show "fst (delete_announcement e aid s) = Inr False"
    "canonical (snd (delete_announcement e aid s)) = canonical s"
    "backup (snd (delete_announcement e aid s)) = backup s"
    "temp (snd (delete_announcement e aid s)) = temp s"
    "jobs (snd (delete_announcement e aid s)) = jobs s"
    by (simp_all add: delete_announcement_absent load_announcements_fields)
next
  assume ok: "codec_ok e \<and> writes_succeed e \<and> \<not> fail_read (faults e)"
    and ex: "\<exists>a\<in>set (stored e s). ann_id a = aid"
  show "fst (delete_announcement e aid s) = Inr True"
    using delete_announcement_present(1) [OF ex] ok by simp
  show "canonical (snd (delete_announcement e aid s)) =
           Some (dumps e (JObject [(''announcements'',
                                   filter (\<lambda>a. ann_id a \<noteq> aid) (stored e s))]))"
    using delete_announcement_present(2) [OF ex] ok by simp
  show st: "stored e (snd (delete_announcement e aid s)) =
           filter (\<lambda>a. ann_id a \<noteq> aid) (stored e s)"
    using stored_after_delete [OF ex] ok by simp
  have "\<forall>a\<in>set (stored e (snd (delete_announcement e aid s))). ann_id a \<noteq> aid"
    by (simp add: st)
  then show "fst (delete_announcement e aid (snd (delete_announcement e aid s))) = Inr False"
    by (simp add: delete_announcement_absent)
next
  assume ok: "codec_ok e \<and> writes_succeed e \<and> \<not> fail_read (faults e)"
    and cr: "fst (create_announcement e ty txt loc dt rep rid cb pt s) = Inr a"
  let ?s1 = "snd (create_announcement e ty txt loc dt rep rid cb pt s)"
  have "stored e ?s1 = stored e s @ [a]"
    using stored_after_create(2) [OF cr] ok by simp
  then have ex: "\<exists>x\<in>set (stored e ?s1). ann_id x = ann_id a" by simp
  show "fst (delete_announcement e (ann_id a) ?s1) = Inr True"
    using delete_announcement_present(1) [OF ex] ok by simp
  have st: "stored e (snd (delete_announcement e (ann_id a) ?s1)) =
           filter (\<lambda>x. ann_id x \<noteq> ann_id a) (stored e ?s1)"
    using stored_after_delete [OF ex] ok by simp
  have "\<forall>x\<in>set (stored e (snd (delete_announcement e (ann_id a) ?s1))). ann_id x \<noteq> ann_id a"
    by (simp add: st)
  then show "fst (delete_announcement e (ann_id a)
               (snd (delete_announcement e (ann_id a) ?s1))) = Inr False"
    by (simp add: delete_announcement_absent)
qed

theorem delete_announcement_found_or_not_witness:
  "fst (delete_announcement ex_env ''zz'' (ex_state [ex_practice, ex_weekly])) = Inr False \<and>
   canonical (snd (delete_announcement ex_env ''zz'' (ex_state [ex_practice, ex_weekly]))) =
     canonical (ex_state [ex_practice, ex_weekly]) \<and>
   fst (delete_announcement ex_env ''a1'' (ex_state [ex_practice, ex_weekly])) = Inr True \<and>
   stored ex_env (snd (delete_announcement ex_env ''a1'' (ex_state [ex_practice, ex_weekly]))) =
     [ex_weekly] \<and>
   fst (delete_announcement ex_env ''id-new''
         (snd (create_announcement ex_env ''practice'' [] (Some ''Gym A'') ''2026-02-15T16:00:00''
                 ''none'' 7 1 (Some ''7pm-10pm'') (ex_state [])))) = Inr True \<and>
   fst (delete_announcement ex_env ''id-new''
         (snd (delete_announcement ex_env ''id-new''
           (snd (create_announcement ex_env ''practice'' [] (Some ''Gym A'')
                   ''2026-02-15T16:00:00'' ''none'' 7 1 (Some ''7pm-10pm'') (ex_state []))))))
     = Inr False"
proof -
  have ids: "ann_id ex_practice = ''a1''" "ann_id ex_weekly = ''a2''"
    "ann_id ex_created = ''id-new''"
    by (simp_all add: ex_practice_def ex_weekly_def ex_created_def)
  show ?thesis
    using delete_announcement_found_or_not
            [of ex_env "ex_state [ex_practice, ex_weekly]" "''zz''" "''practice''" "[]"
                "Some ''Gym A''" "''2026-02-15T16:00:00''" "''none''" 7 1 "Some ''7pm-10pm''"
                ex_created]
          delete_announcement_found_or_not
            [of ex_env "ex_state [ex_practice, ex_weekly]" "''a1''" "''practice''" "[]"
                "Some ''Gym A''" "''2026-02-15T16:00:00''" "''none''" 7 1 "Some ''7pm-10pm''"
                ex_created]
          delete_announcement_found_or_not
            [of ex_env "ex_state []" "''zz''" "''practice''" "[]"
                "Some ''Gym A''" "''2026-02-15T16:00:00''" "''none''" 7 1 "Some ''7pm-10pm''"
                ex_created]
    by (simp add: ex_env_ok stored_ex_state ids ex_create)
qed

text \<open>
  Claim C9. One call of \<^verbatim>\<open>delete_announcement(id)\<close> removes every record of the stored
  collection whose id matches, not only the first, and returns \<^verbatim>\<open>True\<close> as soon as one
  record matched: the collection stored afterwards is the former one filtered by
  \<open>ann_id a \<noteq> id\<close>, and no record of it has the id.
\<close>

theorem delete_announcement_removes_every_match:
  assumes "codec_ok e" and "writes_succeed e" and "\<not> fail_read (faults e)"
    and "\<exists>a\<in>set (stored e s). ann_id a = aid"
  shows "fst (delete_announcement e aid s) = Inr True \<and>
         stored e (snd (delete_announcement e aid s)) =
           filter (\<lambda>a. ann_id a \<noteq> aid) (stored e s) \<and>
         (\<forall>a\<in>set (stored e (snd (delete_announcement e aid s))). ann_id a \<noteq> aid)"
  using delete_announcement_present(1) [OF assms(4,2)]
    stored_after_delete [OF assms(4,2,1,3)]
  by simp

theorem delete_announcement_removes_every_match_witness:
  "fst (delete_announcement ex_env ''a1''
         (ex_state [ex_practice, ex_weekly, ex_missed\<lparr>ann_id := ''a1''\<rparr>])) = Inr True \<and>
   stored ex_env (snd (delete_announcement ex_env ''a1''
         (ex_state [ex_practice, ex_weekly, ex_missed\<lparr>ann_id := ''a1''\<rparr>]))) = [ex_weekly]"
proof -
  have ids: "ann_id ex_practice = ''a1''" "ann_id ex_weekly = ''a2''"
    by (simp_all add: ex_practice_def ex_weekly_def)
  have ex: "\<exists>a\<in>set (stored ex_env
       (ex_state [ex_practice, ex_weekly, ex_missed\<lparr>ann_id := ''a1''\<rparr>])). ann_id a = ''a1''"
    by (simp add: stored_ex_state ids)
  show ?thesis
    using delete_announcement_removes_every_match [OF ex_env_ok ex]
    by (simp add: stored_ex_state ids)
qed

section \<open>Lemmas on the firing callback\<close>

lemma after_send_fields:
  "canonical (after_send e aid chan a s) = canonical s"
  "backup (after_send e aid chan a s) = backup s"
  "temp (after_send e aid chan a s) = temp s"
  "jobs (after_send e aid chan a s) = jobs s"
  "sent (after_send e aid chan a s) = sent s @ [render_message (mention_of chan a) a]"
  by (simp_all add: after_send_def log_msg_def load_announcements_fields)

lemma execute_body_send_fails:
  assumes "find (\<lambda>a. ann_id a = aid) (stored e s) = Some a"
    and "channel_id e = Inr cid" and "get_channel e cid = Some chan"
    and "send_error chan = Some err"
  shows "execute_body e aid s = (Inl err, snd (load_announcements e s))"
proof -
  obtain loaded s1 where l: "load_announcements e s = (loaded, s1)"
    by (cases "load_announcements e s")
  show ?thesis
    using assms by (simp add: execute_body_def stored_def l Let_def)
qed

lemma execute_body_sent:
  assumes "find (\<lambda>a. ann_id a = aid) (stored e s) = Some a"
    and "channel_id e = Inr cid" and "get_channel e cid = Some chan"
    and "send_error chan = None"
  shows "execute_body e aid s =
     (if repeating a = ''none'' then
        (case delete_announcement e aid (after_send e aid chan a s) of
           (Inl err, s3) \<Rightarrow> (Inl err, s3)
         | (Inr _, s3) \<Rightarrow> (Inr (), log_msg (Info_removed_one_time aid) s3))
      else (Inr (), after_send e aid chan a s))"
proof -
  obtain loaded s1 where l: "load_announcements e s = (loaded, s1)"
    by (cases "load_announcements e s")
  have "sent s1 = sent s"
    using load_announcements_fields(6) [of e s] by (simp add: l)
  then show ?thesis
    using assms
    by (simp add: execute_body_def stored_def l Let_def after_send_def mention_of_def)
qed

lemma execute_body_not_found:
  assumes "\<forall>a\<in>set (stored e s). ann_id a \<noteq> aid"
  shows "execute_body e aid s =
     (Inr (), log_msg (Error_announcement_not_found aid) (snd (load_announcements e s)))"
proof -
  obtain loaded s1 where l: "load_announcements e s = (loaded, s1)"
    by (cases "load_announcements e s")
  have "find (\<lambda>a. ann_id a = aid) (stored e s) = None"
    using assms by (simp add: find_None_iff)
  then show ?thesis
    by (simp add: execute_body_def stored_def l)
qed

lemma execute_announcement_returns: "fst (execute_announcement e aid s) = Inr ()"
  by (simp add: execute_announcement_def split: prod.splits sum.splits)

lemma execute_one_shot:
  assumes ok: "codec_ok e" "writes_succeed e" "\<not> fail_read (faults e)"
    and f: "find (\<lambda>a. ann_id a = aid) (stored e s) = Some a"
    and ch: "channel_id e = Inr cid" "get_channel e cid = Some chan" "send_error chan = None"
    and rep: "repeating a = ''none''"
  shows "execute_announcement e aid s =
           (Inr (), log_msg (Info_removed_one_time aid)
                      (snd (delete_announcement e aid (after_send e aid chan a s))))"
    and "stored e (snd (execute_announcement e aid s)) =
           filter (\<lambda>x. ann_id x \<noteq> aid) (stored e s)"
    and "jobs (snd (execute_announcement e aid s)) = (jobs s)(aid := None)"
    and "sent (snd (execute_announcement e aid s)) =
           sent s @ [render_message (mention_of chan a) a]"
proof -
  let ?s2 = "after_send e aid chan a s"
  have st2: "stored e ?s2 = stored e s"
    by (rule stored_cong) (simp add: after_send_fields)
  have "a \<in> set (stored e s) \<and> ann_id a = aid"
    using f by (auto simp: find_Some_iff)
  then have ex: "\<exists>x\<in>set (stored e ?s2). ann_id x = aid"
    by (auto simp: st2)
  obtain r s3 where d: "delete_announcement e aid ?s2 = (r, s3)"
    by (cases "delete_announcement e aid ?s2")
  have r: "r = Inr True"
    using delete_announcement_present(1) [OF ex ok(2)] by (simp add: d)
  show e1: "execute_announcement e aid s =
           (Inr (), log_msg (Info_removed_one_time aid)
                      (snd (delete_announcement e aid (after_send e aid chan a s))))"
    by (simp add: execute_announcement_def execute_body_sent [OF f ch] rep d r)
  have "stored e (snd (execute_announcement e aid s)) = stored e s3"
    by (rule stored_cong) (simp add: e1 d log_msg_def)
  also have "\<dots> = filter (\<lambda>x. ann_id x \<noteq> aid) (stored e ?s2)"
    using stored_after_delete [OF ex ok(2,1,3)] by (simp add: d)
  finally show "stored e (snd (execute_announcement e aid s)) =
           filter (\<lambda>x. ann_id x \<noteq> aid) (stored e s)"
    by (simp add: st2)
  show "jobs (snd (execute_announcement e aid s)) = (jobs s)(aid := None)"
    using delete_announcement_present(3) [OF ex ok(2)]
    by (simp add: e1 log_msg_def after_send_fields)
  show "sent (snd (execute_announcement e aid s)) =
           sent s @ [render_message (mention_of chan a) a]"
    using delete_announcement_present(4) [OF ex ok(2)]
    by (simp add: e1 log_msg_def after_send_fields)
qed

lemma execute_absent_sends_nothing:
  assumes "\<forall>a\<in>set (stored e s). ann_id a \<noteq> aid"
  shows "sent (snd (execute_announcement e aid s)) = sent s"
  by (simp add: execute_announcement_def execute_body_not_found [OF assms] log_msg_def
      load_announcements_fields)

lemma ex_ids:
  "ann_id ex_practice = ''a1''" "ann_id ex_weekly = ''a2''" "ann_id ex_missed = ''a3''"
  "ann_id ex_yearly = ''a4''" "ann_id ex_unparsable = ''a5''" "ann_id ex_created = ''id-new''"
  "ann_id ex_aware = ''a6''" "ann_id ex_weekly_seconds = ''a7''"
  by (simp_all add: ex_practice_def ex_weekly_def ex_missed_def ex_yearly_def
      ex_unparsable_def ex_created_def ex_aware_def ex_weekly_seconds_def)

lemma ex_repeating:
  "repeating ex_practice = ''none''" "repeating ex_weekly = ''weekly''"
  "repeating ex_missed = ''none''" "repeating ex_yearly = ''yearly''"
  "repeating ex_unparsable = ''weekly''"
  "repeating ex_aware = ''none''" "repeating ex_weekly_seconds = ''weekly''"
  by (simp_all add: ex_practice_def ex_weekly_def ex_missed_def ex_yearly_def
      ex_unparsable_def ex_aware_def ex_weekly_seconds_def)

lemma ex_env_channel:
  "channel_id ex_env = Inr 42" "get_channel ex_env 42 = Some ex_channel"
  "send_error ex_channel = None"
  by (simp_all add: ex_env_def ex_channel_def)

lemma ex_env_send_fails_channel:
  "channel_id ex_env_send_fails = Inr 42"
  "get_channel ex_env_send_fails 42 = Some (ex_channel\<lparr>send_error := Some HTTPException\<rparr>)"
  "send_error (ex_channel\<lparr>send_error := Some HTTPException\<rparr>) = Some HTTPException"
  by (simp_all add: ex_env_send_fails_def ex_env_def)

lemma stored_ex_state_send_fails: "stored ex_env_send_fails (ex_state anns) = anns"
  by (simp add: stored_def load_announcements_def load_body_def ex_env_send_fails_def ex_env_def
      ex_state_def no_faults_def)

lemma ex_state_fields:
  "canonical (ex_state anns) = Some (JObject [(''announcements'', anns)])"
  "backup (ex_state anns) = None" "temp (ex_state anns) = None"
  "jobs (ex_state anns) = Map.empty" "running (ex_state anns) = False"
  "sent (ex_state anns) = []" "logged (ex_state anns) = []"
  by (simp_all add: ex_state_def)

section \<open>Firing\<close>

text \<open>
  Claim C1. A firing that delivers its message (the record is found, the channel is
  found, \<^verbatim>\<open>channel.send\<close> returns; the file-system calls go through and the codec reads
  back what it wrote) removes the record from the store if and only if its recurrence
  is \<^verbatim>\<open>none\<close>. For a one-shot the callback itself calls \<^verbatim>\<open>delete_announcement\<close> after
  the send, so that when it returns the stored collection has no record of that id, the
  job table has no job of that id, and a further invocation of the callback for the id
  sends nothing. For any other recurrence the callback leaves the three files and the
  job table untouched, so the record is still stored after every firing.
\<close>

theorem firing_removes_record_iff_one_shot:
  assumes "codec_ok e" and "writes_succeed e" and "\<not> fail_read (faults e)"
    and "find (\<lambda>a. ann_id a = aid) (stored e s) = Some a"
    and "channel_id e = Inr cid" and "get_channel e cid = Some chan"
    and "send_error chan = None"
  shows "sent (snd (execute_announcement e aid s)) =
           sent s @ [render_message (mention_of chan a) a] \<and>
         (a \<in> set (stored e (snd (execute_announcement e aid s))) \<longleftrightarrow>
            repeating a \<noteq> ''none'') \<and>
         (repeating a = ''none'' \<longrightarrow>
            execute_announcement e aid s =
              (Inr (), log_msg (Info_removed_one_time aid)
                         (snd (delete_announcement e aid (after_send e aid chan a s)))) \<and>
            stored e (snd (execute_announcement e aid s)) =
              filter (\<lambda>x. ann_id x \<noteq> aid) (stored e s) \<and>
            jobs (snd (execute_announcement e aid s)) aid = None \<and>
            sent (snd (execute_announcement e aid (snd (execute_announcement e aid s)))) =
              sent (snd (execute_announcement e aid s))) \<and>
         (repeating a \<noteq> ''none'' \<longrightarrow>
            stored e (snd (execute_announcement e aid s)) = stored e s \<and>
            canonical (snd (execute_announcement e aid s)) = canonical s \<and>
            backup (snd (execute_announcement e aid s)) = backup s \<and>
            temp (snd (execute_announcement e aid s)) = temp s \<and>
            jobs (snd (execute_announcement e aid s)) = jobs s)"
proof (cases "repeating a = ''none''")
  case True
  note one = execute_one_shot [OF assms True]
  have a: "a \<in> set (stored e s) \<and> ann_id a = aid"
    using assms(4) by (auto simp: find_Some_iff)
  have gone: "\<forall>x\<in>set (stored e (snd (execute_announcement e aid s))). ann_id x \<noteq> aid"
    by (simp add: one(2))
  have "a \<notin> set (stored e (snd (execute_announcement e aid s)))"
    using gone a by blast
  moreover have "sent (snd (execute_announcement e aid (snd (execute_announcement e aid s)))) =
              sent (snd (execute_announcement e aid s))"
    by (rule execute_absent_sends_nothing [OF gone])
  moreover have "jobs (snd (execute_announcement e aid s)) aid = None"
    by (simp add: one(3))
  ultimately show ?thesis
    using True one(1,2,4) by simp
next
  case False
  have a: "a \<in> set (stored e s)"
    using assms(4) by (auto simp: find_Some_iff)
  have e1: "execute_announcement e aid s = (Inr (), after_send e aid chan a s)"
    by (simp add: execute_announcement_def execute_body_sent [OF assms(4-7)] False)
  have "stored e (snd (execute_announcement e aid s)) = stored e s"
    by (rule stored_cong) (simp add: e1 after_send_fields)
  then show ?thesis
    using False a by (simp add: e1 after_send_fields)
qed

theorem firing_removes_record_iff_one_shot_witness:
  "stored ex_env (snd (execute_announcement ex_env ''a1'' (ex_state [ex_practice, ex_weekly]))) =
     [ex_weekly] \<and>
   jobs (snd (execute_announcement ex_env ''a1'' (ex_state [ex_practice, ex_weekly]))) ''a1'' =
     None \<and>
   stored ex_env (snd (execute_announcement ex_env ''a2'' (ex_state [ex_practice, ex_weekly]))) =
     [ex_practice, ex_weekly] \<and>
   length (sent (snd (execute_announcement ex_env ''a2''
     (ex_state [ex_practice, ex_weekly])))) = 1"
proof -
  have f1: "find (\<lambda>a. ann_id a = ''a1'') (stored ex_env (ex_state [ex_practice, ex_weekly]))
            = Some ex_practice"
    by (simp add: stored_ex_state ex_ids)
  have f2: "find (\<lambda>a. ann_id a = ''a2'') (stored ex_env (ex_state [ex_practice, ex_weekly]))
            = Some ex_weekly"
    by (simp add: stored_ex_state ex_ids)
  note one_shot = firing_removes_record_iff_one_shot [OF ex_env_ok f1 ex_env_channel]
  note weekly = firing_removes_record_iff_one_shot [OF ex_env_ok f2 ex_env_channel]
  have r1: "repeating ex_practice = ''none''" and r2: "repeating ex_weekly \<noteq> ''none''"
    by (simp_all add: ex_repeating)
  have "stored ex_env (snd (execute_announcement ex_env ''a1''
            (ex_state [ex_practice, ex_weekly]))) =
          filter (\<lambda>x. ann_id x \<noteq> ''a1'') (stored ex_env (ex_state [ex_practice, ex_weekly]))"
    using one_shot r1 by blast
  moreover have "jobs (snd (execute_announcement ex_env ''a1''
            (ex_state [ex_practice, ex_weekly]))) ''a1'' = None"
    using one_shot r1 by blast
  moreover have "stored ex_env (snd (execute_announcement ex_env ''a2''
            (ex_state [ex_practice, ex_weekly]))) =
          stored ex_env (ex_state [ex_practice, ex_weekly])"
    using weekly r2 by blast
  moreover have "sent (snd (execute_announcement ex_env ''a2''
            (ex_state [ex_practice, ex_weekly]))) =
          sent (ex_state [ex_practice, ex_weekly]) @
            [render_message (mention_of ex_channel ex_weekly) ex_weekly]"
    using weekly by blast
  ultimately show ?thesis
    by (simp add: stored_ex_state ex_ids ex_state_fields)
qed

text \<open>
  Claim C6. When \<^verbatim>\<open>channel.send\<close> raises during a firing, the callback catches the
  exception and logs it, and nothing else happens: the record (one-shot or not) is
  still stored, the three files, the job table and the list of delivered messages are
  as before. The callback never raises: it returns normally from every state, and an
  exception raised anywhere in its body ends up as one \<open>Error_executing\<close> log entry.
\<close>

theorem failed_delivery_keeps_record:
  assumes "find (\<lambda>a. ann_id a = aid) (stored e s) = Some a"
    and "channel_id e = Inr cid" and "get_channel e cid = Some chan"
    and "send_error chan = Some err"
  shows "execute_announcement e aid s =
           (Inr (), log_msg (Error_executing aid err) (snd (load_announcements e s))) \<and>
         stored e (snd (execute_announcement e aid s)) = stored e s \<and>
         a \<in> set (stored e (snd (execute_announcement e aid s))) \<and>
         canonical (snd (execute_announcement e aid s)) = canonical s \<and>
         backup (snd (execute_announcement e aid s)) = backup s \<and>
         temp (snd (execute_announcement e aid s)) = temp s \<and>
         jobs (snd (execute_announcement e aid s)) = jobs s \<and>
         sent (snd (execute_announcement e aid s)) = sent s \<and>
         fst (execute_announcement e2 aid2 s2) = Inr () \<and>
         (execute_body e2 aid2 s2 = (Inl err2, s3) \<longrightarrow>
            execute_announcement e2 aid2 s2 = (Inr (), log_msg (Error_executing aid2 err2) s3))"
proof -
  have a: "a \<in> set (stored e s)"
    using assms(1) by (auto simp: find_Some_iff)
  have e1: "execute_announcement e aid s =
           (Inr (), log_msg (Error_executing aid err) (snd (load_announcements e s)))"
    by (simp add: execute_announcement_def execute_body_send_fails [OF assms])
  have "stored e (snd (execute_announcement e aid s)) = stored e s"
    by (rule stored_cong) (simp add: e1 log_msg_def load_announcements_fields)
  moreover have "execute_body e2 aid2 s2 = (Inl err2, s3) \<longrightarrow>
            execute_announcement e2 aid2 s2 = (Inr (), log_msg (Error_executing aid2 err2) s3)"
    by (simp add: execute_announcement_def)
  ultimately show ?thesis
    using a by (simp add: e1 log_msg_def load_announcements_fields execute_announcement_returns)
qed

theorem failed_delivery_keeps_record_witness:
  "stored ex_env_send_fails
     (snd (execute_announcement ex_env_send_fails ''a1'' (ex_state [ex_practice, ex_weekly]))) =
     [ex_practice, ex_weekly] \<and>
   logged (snd (execute_announcement ex_env_send_fails ''a1''
     (ex_state [ex_practice, ex_weekly]))) = [Error_executing ''a1'' HTTPException] \<and>
   sent (snd (execute_announcement ex_env_send_fails ''a1''
     (ex_state [ex_practice, ex_weekly]))) = []"
proof -
  have f1: "find (\<lambda>a. ann_id a = ''a1'')
              (stored ex_env_send_fails (ex_state [ex_practice, ex_weekly])) = Some ex_practice"
    by (simp add: stored_ex_state_send_fails ex_ids)
  have l: "load_announcements ex_env_send_fails (ex_state [ex_practice, ex_weekly]) =
      ([ex_practice, ex_weekly], ex_state [ex_practice, ex_weekly])"
    by (simp add: load_announcements_def load_body_def ex_env_send_fails_def ex_env_def
      ex_state_def no_faults_def)
  note failed = failed_delivery_keeps_record [OF f1 ex_env_send_fails_channel]
  have "execute_announcement ex_env_send_fails ''a1'' (ex_state [ex_practice, ex_weekly]) =
          (Inr (), log_msg (Error_executing ''a1'' HTTPException)
                     (snd (load_announcements ex_env_send_fails
                            (ex_state [ex_practice, ex_weekly]))))"
    using failed by blast
  then have "logged (snd (execute_announcement ex_env_send_fails ''a1''
     (ex_state [ex_practice, ex_weekly]))) = [Error_executing ''a1'' HTTPException]"
    by (simp add: l log_msg_def ex_state_fields)
  moreover have "stored ex_env_send_fails (snd (execute_announcement ex_env_send_fails ''a1''
            (ex_state [ex_practice, ex_weekly]))) =
          stored ex_env_send_fails (ex_state [ex_practice, ex_weekly])"
    using failed by blast
  moreover have "sent (snd (execute_announcement ex_env_send_fails ''a1''
            (ex_state [ex_practice, ex_weekly]))) = sent (ex_state [ex_practice, ex_weekly])"
    using failed by blast
  ultimately show ?thesis
    by (simp add: stored_ex_state_send_fails ex_state_fields)
qed

section \<open>Lemmas on scheduling and recovery\<close>

lemma build_trigger_recognised:
  "build_trigger t rep \<noteq> None \<longleftrightarrow> recognised rep"
  by (simp add: build_trigger_def recognised_def)

lemma schedule_job_parsed:
  assumes "fromisoformat e (ann_datetime a) = Some t"
  shows "schedule_job e a s =
    (Inr (),
     log_msg (case build_trigger t (repeating a) of
                None \<Rightarrow> Error_unknown_repeating (repeating a)
              | Some trg \<Rightarrow> Info_scheduled_job (ann_id a) (repeating a))
       (s\<lparr>jobs := (jobs s)(ann_id a := build_trigger t (repeating a))\<rparr>))"
proof (cases "jobs s (ann_id a) = None")
  case True
  then have "(jobs s)(ann_id a := None) = jobs s" by (simp add: fun_upd_idem)
  then show ?thesis
    using assms True
    by (simp add: schedule_job_def remove_job_def add_job_def Let_def split: option.splits)
next
  case False
  then show ?thesis
    using assms
    by (auto simp: schedule_job_def remove_job_def add_job_def Let_def split: option.splits)
qed

lemma schedule_job_unparsable:
  assumes "fromisoformat e (ann_datetime a) = None"
  shows "schedule_job e a s = (Inl ValueError, s)"
  using assms by (simp add: schedule_job_def)

lemma schedule_job_jobs:
  assumes "fromisoformat e (ann_datetime a) \<noteq> None"
  shows "fst (schedule_job e a s) = Inr ()"
    and "jobs (snd (schedule_job e a s)) = (jobs s)(ann_id a := rule_of e a)"
  using assms by (auto simp: schedule_job_parsed rule_of_def log_msg_def)

lemma dt_less_naive_now:
  assumes "utcoffset n = None"
  shows "dt_less t n =
           (case utcoffset t of
              None \<Rightarrow> Inr (lex_less (dt_fields t) (dt_fields n))
            | Some off \<Rightarrow> Inl TypeError)"
  using assms by (simp add: dt_less_def split: option.splits)

lemma raised_None_parses:
  assumes "raised e a = None"
  shows "fromisoformat e (ann_datetime a) \<noteq> None"
  using assms by (auto simp: raised_def split: option.splits)

lemma raised_naive_dated:
  assumes "utcoffset (now e) = None"
  shows "raised e a = None \<longleftrightarrow> naive_dated e a"
  using assms
  by (auto simp: raised_def naive_dated_def dt_less_naive_now split: option.splits)

lemma raised_unparsable:
  assumes "fromisoformat e (ann_datetime a) = None"
  shows "raised e a = Some ValueError"
  using assms by (simp add: raised_def)

lemma raised_aware_one_shot:
  assumes "utcoffset (now e) = None" and "fromisoformat e (ann_datetime a) = Some t"
    and "repeating a = ''none''" and "utcoffset t = Some off"
  shows "raised e a = Some TypeError"
  using assms by (simp add: raised_def dt_less_naive_now)

lemma reschedule_loop_step_missed:
  assumes "missed e a"
  shows "reschedule_loop e (a # rest) r k s =
           reschedule_loop e rest r (k + 1) (log_msg (Info_skipping_missed (ann_id a)) s)"
  using assms by (auto simp: missed_def split: option.splits)

lemma reschedule_loop_step_scheduled:
  assumes "\<not> missed e a" and "raised e a = None"
  shows "reschedule_loop e (a # rest) r k s =
           reschedule_loop e rest (r + 1) k (snd (schedule_job e a s))"
proof -
  obtain t where t: "fromisoformat e (ann_datetime a) = Some t"
    using raised_None_parses [OF assms(2)] by auto
  show ?thesis
  proof (cases "repeating a = ''none''")
    case True
    have "dt_less t (now e) \<noteq> Inr True"
      using assms(1) True by (simp add: missed_def t)
    moreover have "\<not> isl (dt_less t (now e))"
      using assms(2) True by (simp add: raised_def t split: sum.splits)
    ultimately have "dt_less t (now e) = Inr False"
      by (cases "dt_less t (now e)") auto
    then show ?thesis
      using True by (simp add: t schedule_job_parsed [OF t])
  next
    case False
    then show ?thesis
      by (simp add: t schedule_job_parsed [OF t])
  qed
qed

lemma reschedule_loop_step_raised:
  assumes "raised e a = Some err"
  shows "reschedule_loop e (a # rest) r k s = (Inl err, s)"
  using assms by (auto simp: raised_def split: option.splits if_splits sum.splits)

lemma reschedule_loop_result:
  assumes "\<forall>a\<in>set as. raised e a = None"
  shows "fst (reschedule_loop e as r k s) =
           Inr (r + length (filter (\<lambda>a. \<not> missed e a) as), k + length (filter (missed e) as))"
  using assms
proof (induction as arbitrary: r k s)
  case Nil
  then show ?case by simp
next
  case (Cons a as)
  show ?case
  proof (cases "missed e a")
    case True
    then show ?thesis
      using Cons by (simp only: reschedule_loop_step_missed [OF True]) simp
  next
    case False
    have p: "raised e a = None" using Cons.prems by simp
    show ?thesis
      using Cons False by (simp only: reschedule_loop_step_scheduled [OF False p]) simp
  qed
qed

lemma reschedule_loop_fields:
  "canonical (snd (reschedule_loop e as r k s)) = canonical s \<and>
   backup (snd (reschedule_loop e as r k s)) = backup s \<and>
   temp (snd (reschedule_loop e as r k s)) = temp s \<and>
   sent (snd (reschedule_loop e as r k s)) = sent s \<and>
   running (snd (reschedule_loop e as r k s)) = running s"
proof (induction as arbitrary: r k s)
  case Nil
  then show ?case by simp
next
  case (Cons a as)
  show ?case
  proof (cases "raised e a")
    case (Some err)
    show ?thesis by (simp only: reschedule_loop_step_raised [OF Some]) simp
  next
    case None
    show ?thesis
    proof (cases "missed e a")
      case True
      show ?thesis
        using Cons.IH [of r "k + 1" "log_msg (Info_skipping_missed (ann_id a)) s"]
        by (simp only: reschedule_loop_step_missed [OF True]) (simp add: log_msg_def)
    next
      case False
      show ?thesis
        using Cons.IH [of "r + 1" k "snd (schedule_job e a s)"]
        by (simp only: reschedule_loop_step_scheduled [OF False None])
           (simp add: schedule_job_fields)
    qed
  qed
qed

lemma reschedule_loop_other_jobs:
  assumes "\<forall>a\<in>set as. \<not> missed e a \<longrightarrow> ann_id a \<noteq> i"
  shows "jobs (snd (reschedule_loop e as r k s)) i = jobs s i"
  using assms
proof (induction as arbitrary: r k s)
  case Nil
  then show ?case by simp
next
  case (Cons a as)
  show ?case
  proof (cases "raised e a")
    case (Some err)
    show ?thesis by (simp only: reschedule_loop_step_raised [OF Some]) simp
  next
    case None
    show ?thesis
    proof (cases "missed e a")
      case True
      show ?thesis
        using Cons.IH [of r "k + 1" "log_msg (Info_skipping_missed (ann_id a)) s"] Cons.prems
        by (simp only: reschedule_loop_step_missed [OF True]) (simp add: log_msg_def)
    next
      case False
      have p: "fromisoformat e (ann_datetime a) \<noteq> None" by (rule raised_None_parses [OF None])
      have "ann_id a \<noteq> i" using Cons.prems False by simp
      then show ?thesis
        using Cons.IH [of "r + 1" k "snd (schedule_job e a s)"] Cons.prems
        by (simp only: reschedule_loop_step_scheduled [OF False None])
           (simp add: schedule_job_jobs(2) [OF p])
    qed
  qed
qed

lemma reschedule_loop_scheduled_jobs:
  assumes "\<forall>a\<in>set as. raised e a = None"
    and "distinct (map ann_id as)" and "x \<in> set as" and "\<not> missed e x"
  shows "jobs (snd (reschedule_loop e as r k s)) (ann_id x) = rule_of e x"
  using assms
proof (induction as arbitrary: r k s)
  case Nil
  then show ?case by simp
next
  case (Cons a as)
  have q: "raised e a = None" using Cons.prems(1) by simp
  have p: "fromisoformat e (ann_datetime a) \<noteq> None" by (rule raised_None_parses [OF q])
  show ?case
  proof (cases "x = a")
    case True
    have nm: "\<not> missed e a" using Cons.prems(4) True by simp
    have "ann_id a \<notin> ann_id ` set as"
      using Cons.prems(2) by simp
    then have "\<forall>b\<in>set as. \<not> missed e b \<longrightarrow> ann_id b \<noteq> ann_id a"
      by (metis imageI)
    from reschedule_loop_other_jobs [OF this]
    show ?thesis
      by (simp only: reschedule_loop_step_scheduled [OF nm q] True)
         (simp add: schedule_job_jobs(2) [OF p])
  next
    case False
    then have xin: "x \<in> set as" using Cons.prems(3) by simp
    have d: "distinct (map ann_id as)" using Cons.prems(2) by simp
    have ps: "\<forall>a\<in>set as. raised e a = None"
      using Cons.prems(1) by simp
    show ?thesis
    proof (cases "missed e a")
      case True
      show ?thesis
        using Cons.IH [OF ps d xin Cons.prems(4)]
        by (simp only: reschedule_loop_step_missed [OF True])
    next
      case nm: False
      show ?thesis
        using Cons.IH [OF ps d xin Cons.prems(4)]
        by (simp only: reschedule_loop_step_scheduled [OF nm q])
    qed
  qed
qed

lemma reschedule_loop_aborts:
  assumes "\<forall>a\<in>set pre. raised e a = None"
    and "raised e bad = Some err"
  shows "fst (reschedule_loop e (pre @ bad # post) r k s) = Inl err"
    and "\<forall>a\<in>set pre. \<not> missed e a \<longrightarrow> ann_id a \<noteq> i \<Longrightarrow>
         jobs (snd (reschedule_loop e (pre @ bad # post) r k s)) i = jobs s i"
  using assms
proof (induction pre arbitrary: r k s)
  case Nil
  { case 1 then show ?case by (simp only: append_Nil reschedule_loop_step_raised) simp }
  { case 2 then show ?case by (simp only: append_Nil reschedule_loop_step_raised) simp }
next
  case (Cons a pre)
  {
    case 1
    have q: "raised e a = None" using 1 by simp
    show ?case
    proof (cases "missed e a")
      case True
      show ?thesis
        using Cons.IH(1) 1
        by (simp only: append_Cons reschedule_loop_step_missed [OF True]) simp
    next
      case False
      show ?thesis
        using Cons.IH(1) 1
        by (simp only: append_Cons reschedule_loop_step_scheduled [OF False q]) simp
    qed
  }
  {
    case 2
    have q: "raised e a = None" using 2 by simp
    have p: "fromisoformat e (ann_datetime a) \<noteq> None" by (rule raised_None_parses [OF q])
    show ?case
    proof (cases "missed e a")
      case True
      show ?thesis
        using Cons.IH(2) [of r "k + 1" "log_msg (Info_skipping_missed (ann_id a)) s"] 2
        by (simp only: append_Cons reschedule_loop_step_missed [OF True])
           (simp add: log_msg_def)
    next
      case False
      have "ann_id a \<noteq> i" using 2 False by simp
      then show ?thesis
        using Cons.IH(2) [of "r + 1" k "snd (schedule_job e a s)"] 2
        by (simp only: append_Cons reschedule_loop_step_scheduled [OF False q])
           (simp add: schedule_job_jobs(2) [OF p])
    qed
  }
qed

lemma reschedule_loop_jobs_only:
  assumes "jobs t = jobs s"
  shows "fst (reschedule_loop e as r k t) = fst (reschedule_loop e as r k s) \<and>
         jobs (snd (reschedule_loop e as r k t)) = jobs (snd (reschedule_loop e as r k s))"
  using assms
proof (induction as arbitrary: r k s t)
  case Nil
  then show ?case by simp
next
  case (Cons a as)
  show ?case
  proof (cases "raised e a")
    case (Some err)
    show ?thesis
      using Cons.prems by (simp only: reschedule_loop_step_raised [OF Some]) simp
  next
    case None
    have p: "fromisoformat e (ann_datetime a) \<noteq> None" by (rule raised_None_parses [OF None])
    show ?thesis
    proof (cases "missed e a")
      case True
      have "jobs (log_msg (Info_skipping_missed (ann_id a)) t) =
            jobs (log_msg (Info_skipping_missed (ann_id a)) s)"
        using Cons.prems by (simp add: log_msg_def)
      from Cons.IH [OF this] show ?thesis
        by (simp only: reschedule_loop_step_missed [OF True])
    next
      case False
      have "jobs (snd (schedule_job e a t)) = jobs (snd (schedule_job e a s))"
        using Cons.prems by (simp add: schedule_job_jobs(2) [OF p])
      from Cons.IH [OF this] show ?thesis
        by (simp only: reschedule_loop_step_scheduled [OF False None])
    qed
  qed
qed

lemma recovery_ok:
  assumes "\<forall>a\<in>set (stored e s). raised e a = None"
  shows "load_and_reschedule_announcements e s =
           (Inr (), log_msg (Info_rescheduled
                       (length (filter (\<lambda>a. \<not> missed e a) (stored e s)))
                       (length (filter (missed e) (stored e s))))
                     (snd (reschedule_loop e (stored e s) 0 0 (snd (load_announcements e s)))))"
proof -
  obtain loaded s1 where l: "load_announcements e s = (loaded, s1)"
    by (cases "load_announcements e s")
  have st: "stored e s = loaded" by (simp add: stored_def l)
  obtain res s2 where lp: "reschedule_loop e loaded 0 0 s1 = (res, s2)"
    by (cases "reschedule_loop e loaded 0 0 s1")
  have "res = Inr (length (filter (\<lambda>a. \<not> missed e a) loaded), length (filter (missed e) loaded))"
    using reschedule_loop_result [of loaded e 0 0 s1] assms by (simp add: st lp)
  then show ?thesis
    by (simp add: load_and_reschedule_announcements_def l st lp)
qed

lemma recovery_fields:
  "canonical (snd (load_and_reschedule_announcements e s)) = canonical s"
  "backup (snd (load_and_reschedule_announcements e s)) = backup s"
  "temp (snd (load_and_reschedule_announcements e s)) = temp s"
  "sent (snd (load_and_reschedule_announcements e s)) = sent s"
proof -
  obtain loaded s1 where l: "load_announcements e s = (loaded, s1)"
    by (cases "load_announcements e s")
  obtain res s2 where lp: "reschedule_loop e loaded 0 0 s1 = (res, s2)"
    by (cases "reschedule_loop e loaded 0 0 s1")
  have s1: "canonical s1 = canonical s" "backup s1 = backup s" "temp s1 = temp s"
    "sent s1 = sent s"
    using load_announcements_fields [of e s] by (simp_all add: l)
  have s2: "canonical s2 = canonical s1" "backup s2 = backup s1" "temp s2 = temp s1"
    "sent s2 = sent s1"
    using reschedule_loop_fields [of e loaded 0 0 s1] by (simp_all add: lp)
  show "canonical (snd (load_and_reschedule_announcements e s)) = canonical s"
    "backup (snd (load_and_reschedule_announcements e s)) = backup s"
    "temp (snd (load_and_reschedule_announcements e s)) = temp s"
    "sent (snd (load_and_reschedule_announcements e s)) = sent s"
    by (simp_all add: load_and_reschedule_announcements_def l lp s1 s2 log_msg_def
        split: sum.splits prod.splits)
qed

lemma recovery_jobs:
  "jobs (snd (load_and_reschedule_announcements e s)) =
     jobs (snd (reschedule_loop e (stored e s) 0 0 (snd (load_announcements e s))))"
proof -
  obtain loaded s1 where l: "load_announcements e s = (loaded, s1)"
    by (cases "load_announcements e s")
  obtain res s2 where lp: "reschedule_loop e loaded 0 0 s1 = (res, s2)"
    by (cases "reschedule_loop e loaded 0 0 s1")
  show ?thesis
    by (simp add: load_and_reschedule_announcements_def stored_def l lp log_msg_def
        split: sum.splits prod.splits)
qed

lemma recovery_other_jobs:
  assumes "\<forall>a\<in>set (stored e s). \<not> missed e a \<longrightarrow> ann_id a \<noteq> i"
  shows "jobs (snd (load_and_reschedule_announcements e s)) i = jobs s i"
  using reschedule_loop_other_jobs [OF assms, of 0 0 "snd (load_announcements e s)"]
  by (simp add: recovery_jobs load_announcements_fields)

lemma recovery_scheduled_jobs:
  assumes "\<forall>a\<in>set (stored e s). raised e a = None"
    and "distinct (map ann_id (stored e s))" and "x \<in> set (stored e s)" and "\<not> missed e x"
  shows "jobs (snd (load_and_reschedule_announcements e s)) (ann_id x) = rule_of e x"
  using reschedule_loop_scheduled_jobs [OF assms, of 0 0 "snd (load_announcements e s)"]
  by (simp add: recovery_jobs)

lemma recovery_missed_jobs:
  assumes "distinct (map ann_id (stored e s))" and "x \<in> set (stored e s)" and "missed e x"
  shows "jobs (snd (load_and_reschedule_announcements e s)) (ann_id x) = jobs s (ann_id x)"
proof (rule recovery_other_jobs, intro ballI impI)
  fix a assume a: "a \<in> set (stored e s)" "\<not> missed e a"
  then have "a \<noteq> x" using assms(3) by auto
  then show "ann_id a \<noteq> ann_id x"
    using assms(1,2) a(1) by (auto simp: distinct_map inj_on_def)
qed

lemma recovery_aborts:
  assumes "stored e s = pre @ bad # post"
    and "\<forall>a\<in>set pre. raised e a = None"
    and "raised e bad = Some err"
  shows "fst (load_and_reschedule_announcements e s) = Inl err"
    and "\<forall>a\<in>set pre. \<not> missed e a \<longrightarrow> ann_id a \<noteq> i \<Longrightarrow>
         jobs (snd (load_and_reschedule_announcements e s)) i = jobs s i"
proof -
  obtain loaded s1 where l: "load_announcements e s = (loaded, s1)"
    by (cases "load_announcements e s")
  have st: "loaded = pre @ bad # post" using assms(1) by (simp add: stored_def l)
  obtain res s2 where lp: "reschedule_loop e (pre @ bad # post) 0 0 s1 = (res, s2)"
    by (cases "reschedule_loop e (pre @ bad # post) 0 0 s1")
  have res: "res = Inl err"
    using reschedule_loop_aborts(1) [OF assms(2,3), of post 0 0 s1] by (simp add: lp)
  show "fst (load_and_reschedule_announcements e s) = Inl err"
    by (simp add: load_and_reschedule_announcements_def l st lp res)
  assume "\<forall>a\<in>set pre. \<not> missed e a \<longrightarrow> ann_id a \<noteq> i"
  from reschedule_loop_aborts(2) [OF assms(2,3) this, of post 0 0 s1]
  show "jobs (snd (load_and_reschedule_announcements e s)) i = jobs s i"
    using load_announcements_fields(4) [of e s]
    by (simp add: load_and_reschedule_announcements_def l st lp res)
qed

lemma initialize_fresh:
  assumes "\<not> running s"
  shows "initialize e s =
     load_and_reschedule_announcements e (log_msg Info_scheduler_started (s\<lparr>running := True\<rparr>))"
    and "stored e (log_msg Info_scheduler_started (s\<lparr>running := True\<rparr>)) = stored e s"
proof -
  show "initialize e s =
     load_and_reschedule_announcements e (log_msg Info_scheduler_started (s\<lparr>running := True\<rparr>))"
    using assms by (simp add: initialize_def)
  show "stored e (log_msg Info_scheduler_started (s\<lparr>running := True\<rparr>)) = stored e s"
    by (rule stored_cong) (simp add: log_msg_def)
qed

text \<open>
  Recovery through \<^verbatim>\<open>initialize\<close> on a scheduler that does not run yet is the recovery
  itself, as far as the result and the job table go.
\<close>

lemma initialize_recovery:
  assumes "\<not> running s"
  shows "fst (initialize e s) = fst (load_and_reschedule_announcements e s)"
    and "jobs (snd (initialize e s)) = jobs (snd (load_and_reschedule_announcements e s))"
proof -
  let ?T = "log_msg Info_scheduler_started (s\<lparr>running := True\<rparr>)"
  have i: "initialize e s = load_and_reschedule_announcements e ?T"
    and st: "stored e ?T = stored e s"
    using initialize_fresh [OF assms] by simp_all
  obtain la s1 where l: "load_announcements e s = (la, s1)"
    by (cases "load_announcements e s")
  obtain lb t1 where lt: "load_announcements e ?T = (lb, t1)"
    by (cases "load_announcements e ?T")
  have same: "lb = la" using st by (simp add: stored_def l lt)
  have js: "jobs s1 = jobs s" using load_announcements_fields [of e s] by (simp add: l)
  have "jobs t1 = jobs ?T"
    using load_announcements_fields(4) [of e ?T] by (simp only: lt snd_conv)
  then have jt: "jobs t1 = jobs s" by (simp add: log_msg_def)
  obtain ra sa where la: "reschedule_loop e la 0 0 s1 = (ra, sa)"
    by (cases "reschedule_loop e la 0 0 s1")
  obtain rb sb where lb: "reschedule_loop e la 0 0 t1 = (rb, sb)"
    by (cases "reschedule_loop e la 0 0 t1")
  have "jobs t1 = jobs s1" by (simp add: js jt)
  from reschedule_loop_jobs_only [OF this, of e la 0 0]
  have loop: "rb = ra" "jobs sb = jobs sa" by (simp_all add: la lb)
  have A: "load_and_reschedule_announcements e ?T =
             (case ra of Inl err \<Rightarrow> (Inl err, sb)
              | Inr (r, k) \<Rightarrow> (Inr (), log_msg (Info_rescheduled r k) sb))"
    by (simp add: load_and_reschedule_announcements_def lt same lb loop)
  have B: "load_and_reschedule_announcements e s =
             (case ra of Inl err \<Rightarrow> (Inl err, sa)
              | Inr (r, k) \<Rightarrow> (Inr (), log_msg (Info_rescheduled r k) sa))"
    by (simp add: load_and_reschedule_announcements_def l la)
  have j: "\<And>m u. jobs (log_msg m (u :: 'a state)) = jobs u" by (simp add: log_msg_def)
  show "fst (initialize e s) = fst (load_and_reschedule_announcements e s)"
    by (cases ra) (simp_all only: i A B, simp_all split: prod.splits)
  show "jobs (snd (initialize e s)) = jobs (snd (load_and_reschedule_announcements e s))"
    by (cases ra) (simp_all only: i A B, simp_all add: j loop split: prod.splits)
qed

lemma rule_of_recognised:
  assumes "fromisoformat e (ann_datetime a) \<noteq> None"
  shows "rule_of e a \<noteq> None \<longleftrightarrow> recognised (repeating a)"
proof -
  obtain t where t: "fromisoformat e (ann_datetime a) = Some t"
    using assms by auto
  show ?thesis
    using build_trigger_recognised [of t "repeating a"] by (simp only: rule_of_def t option.case)
qed

lemma unrecognised_not_missed: "\<not> recognised (repeating a) \<Longrightarrow> \<not> missed e a"
  by (auto simp: missed_def recognised_def split: option.splits)

lemma unrecognised_not_raised:
  assumes "\<not> recognised (repeating a)" and "fromisoformat e (ann_datetime a) = Some t"
  shows "raised e a = None"
  using assms by (auto simp: raised_def recognised_def)

lemma ex_parses:
  "fromisoformat ex_env (ann_datetime ex_practice) \<noteq> None"
  "fromisoformat ex_env (ann_datetime ex_weekly) \<noteq> None"
  "fromisoformat ex_env (ann_datetime ex_missed) \<noteq> None"
  "fromisoformat ex_env (ann_datetime ex_yearly) \<noteq> None"
  "fromisoformat ex_env (ann_datetime ex_unparsable) = None"
  by (simp_all add: ex_env_def ex_practice_def ex_weekly_def ex_missed_def ex_yearly_def
      ex_unparsable_def parse_iso_examples)

lemma ex_env_fields:
  "fromisoformat ex_env = parse_iso" "now ex_env = ex_now"
  by (simp_all add: ex_env_def)

lemma ex_now_naive: "utcoffset (now ex_env) = None"
  by (simp add: ex_env_fields ex_now_def)

lemma ex_naive_dated:
  "naive_dated ex_env ex_practice" "naive_dated ex_env ex_weekly"
  "naive_dated ex_env ex_missed" "naive_dated ex_env ex_yearly"
  "\<not> naive_dated ex_env ex_unparsable" "\<not> naive_dated ex_env ex_aware"
  by (simp_all add: naive_dated_def ex_env_fields ex_practice_def ex_weekly_def ex_missed_def
      ex_yearly_def ex_unparsable_def ex_aware_def parse_iso_examples parse_iso_more_examples)

lemma ex_raised:
  "raised ex_env ex_practice = None" "raised ex_env ex_weekly = None"
  "raised ex_env ex_missed = None" "raised ex_env ex_yearly = None"
  "raised ex_env ex_unparsable = Some ValueError" "raised ex_env ex_aware = Some TypeError"
  by (simp_all add: raised_def ex_env_fields ex_practice_def ex_weekly_def ex_missed_def
      ex_yearly_def ex_unparsable_def ex_aware_def parse_iso_examples parse_iso_more_examples
      dt_less_def ex_now_def)

lemma ex_missed_facts:
  "\<not> missed ex_env ex_practice" "\<not> missed ex_env ex_weekly" "missed ex_env ex_missed"
  "\<not> missed ex_env ex_yearly"
  by (simp_all add: missed_def ex_env_fields ex_practice_def ex_weekly_def ex_missed_def
      ex_yearly_def parse_iso_examples dt_less_def dt_fields_def ex_now_def)

lemma ex_weekday:
  "weekday \<lparr>year = 2025, month = 11, day = 3, hour = 18, minute = 30, second = 0,
     microsecond = 0, utcoffset = None\<rparr> = 0"
  by (simp add: weekday_def toordinal_def days_before_year_def days_before_month_def
      days_in_month_def is_leap_def)

lemma ex_rules:
  "rule_of ex_env ex_practice = Some (DateTrigger
     \<lparr>year = 2026, month = 2, day = 15, hour = 16, minute = 0, second = 0, microsecond = 0, utcoffset = None\<rparr>)"
  "rule_of ex_env ex_weekly = Some (CronTrigger (Some 0) None 18 30)"
  "rule_of ex_env ex_yearly = None"
  by (simp_all add: rule_of_def ex_env_fields ex_practice_def ex_weekly_def ex_yearly_def
      parse_iso_examples build_trigger_def ex_weekday)

lemma ex_recognised:
  "recognised (repeating ex_practice)" "recognised (repeating ex_weekly)"
  "recognised (repeating ex_missed)" "\<not> recognised (repeating ex_yearly)"
  by (simp_all add: ex_repeating recognised_def)

lemma ex_parsed:
  "fromisoformat ex_env (ann_datetime ex_yearly) =
     Some \<lparr>year = 2026, month = 3, day = 1, hour = 10, minute = 0, second = 0, microsecond = 0, utcoffset = None\<rparr>"
  "fromisoformat ex_env (ann_datetime ex_weekly) =
     Some \<lparr>year = 2025, month = 11, day = 3, hour = 18, minute = 30, second = 0,
       microsecond = 0, utcoffset = None\<rparr>"
  by (simp_all add: ex_env_fields ex_yearly_def ex_weekly_def parse_iso_examples)

section \<open>Recovery\<close>

text \<open>
  Claim C3, as the code has it. Recovery at \<^verbatim>\<open>initialize()\<close>, on a scheduler not yet
  started, with a naive \<^verbatim>\<open>now\<close> (that of \<^verbatim>\<open>datetime.now()\<close>), over a stored collection
  whose ids are distinct and whose datetimes parse, those of the one-shots to naive
  datetimes: it returns normally; it writes no file and delivers nothing, so every
  record stays stored as it was. A stored one-shot whose datetime is strictly before
  \<^verbatim>\<open>now\<close> gets no timer (the job table is unchanged at its id) and is counted as
  skipped. Every other stored announcement is counted as rescheduled and the job table
  holds at its id the trigger built from its datetime and recurrence; that trigger
  exists exactly when the recurrence is one of \<^verbatim>\<open>none\<close>, \<^verbatim>\<open>daily\<close>, \<^verbatim>\<open>weekly\<close>,
  \<^verbatim>\<open>monthly\<close>. The two counts are the ones of the last log entry.
\<close>

theorem recovery_skips_missed_one_shots:
  assumes "\<not> running s" and "utcoffset (now e) = None"
    and "\<forall>a\<in>set (stored e s). naive_dated e a"
    and "distinct (map ann_id (stored e s))"
  shows "fst (initialize e s) = Inr () \<and>
         canonical (snd (initialize e s)) = canonical s \<and>
         backup (snd (initialize e s)) = backup s \<and>
         temp (snd (initialize e s)) = temp s \<and>
         sent (snd (initialize e s)) = sent s \<and>
         stored e (snd (initialize e s)) = stored e s \<and>
         (\<forall>a\<in>set (stored e s). missed e a \<longrightarrow>
            jobs (snd (initialize e s)) (ann_id a) = jobs s (ann_id a)) \<and>
         (\<forall>a\<in>set (stored e s). \<not> missed e a \<longrightarrow>
            jobs (snd (initialize e s)) (ann_id a) = rule_of e a \<and>
            (rule_of e a \<noteq> None \<longleftrightarrow> recognised (repeating a))) \<and>
         last (logged (snd (initialize e s))) =
           Info_rescheduled (length (filter (\<lambda>a. \<not> missed e a) (stored e s)))
                            (length (filter (missed e) (stored e s)))"
proof -
  let ?s0 = "log_msg Info_scheduler_started (s\<lparr>running := True\<rparr>)"
  have i: "initialize e s = load_and_reschedule_announcements e ?s0"
    and st: "stored e ?s0 = stored e s"
    using initialize_fresh [OF assms(1)] by simp_all
  have f0: "canonical ?s0 = canonical s" "backup ?s0 = backup s" "temp ?s0 = temp s"
    "sent ?s0 = sent s" "jobs ?s0 = jobs s"
    by (simp_all add: log_msg_def)
  have q: "\<forall>a\<in>set (stored e s). raised e a = None"
    using assms(3) by (simp add: raised_naive_dated [OF assms(2)])
  have p: "\<forall>a\<in>set (stored e ?s0). raised e a = None"
    using q by (simp add: st)
  have d: "distinct (map ann_id (stored e ?s0))"
    using assms(4) by (simp add: st)
  note ok = recovery_ok [OF p]
  have 1: "fst (initialize e s) = Inr ()"
    by (simp add: i ok)
  have 2: "canonical (snd (initialize e s)) = canonical s"
    "backup (snd (initialize e s)) = backup s"
    "temp (snd (initialize e s)) = temp s"
    "sent (snd (initialize e s)) = sent s"
    by (simp_all add: i recovery_fields f0)
  have 3: "stored e (snd (initialize e s)) = stored e s"
    by (rule stored_cong) (rule 2(1))
  have 4: "\<forall>a\<in>set (stored e s). missed e a \<longrightarrow>
            jobs (snd (initialize e s)) (ann_id a) = jobs s (ann_id a)"
    using recovery_missed_jobs [OF d] by (simp add: i st f0)
  have 5: "\<forall>a\<in>set (stored e s). \<not> missed e a \<longrightarrow>
            jobs (snd (initialize e s)) (ann_id a) = rule_of e a \<and>
            (rule_of e a \<noteq> None \<longleftrightarrow> recognised (repeating a))"
  proof (intro ballI impI conjI)
    fix a assume a: "a \<in> set (stored e s)" "\<not> missed e a"
    show "jobs (snd (initialize e s)) (ann_id a) = rule_of e a"
      using recovery_scheduled_jobs [OF p d, of a] a by (simp add: i st)
    have "raised e a = None" using q a(1) by blast
    then show "rule_of e a \<noteq> None \<longleftrightarrow> recognised (repeating a)"
      by (intro rule_of_recognised raised_None_parses)
  qed
  have 6: "last (logged (snd (initialize e s))) =
           Info_rescheduled (length (filter (\<lambda>a. \<not> missed e a) (stored e s)))
                            (length (filter (missed e) (stored e s)))"
    by (simp only: i ok st snd_conv) (simp add: log_msg_def)
  show ?thesis
    using 1 2 3 4 5 6 by blast
qed

theorem recovery_skips_missed_one_shots_witness:
  "fst (initialize ex_env (ex_state [ex_practice, ex_weekly, ex_missed])) = Inr () \<and>
   stored ex_env (snd (initialize ex_env (ex_state [ex_practice, ex_weekly, ex_missed]))) =
     [ex_practice, ex_weekly, ex_missed] \<and>
   jobs (snd (initialize ex_env (ex_state [ex_practice, ex_weekly, ex_missed]))) ''a3'' = None \<and>
   jobs (snd (initialize ex_env (ex_state [ex_practice, ex_weekly, ex_missed]))) ''a2'' =
     Some (CronTrigger (Some 0) None 18 30) \<and>
   last (logged (snd (initialize ex_env (ex_state [ex_practice, ex_weekly, ex_missed])))) =
     Info_rescheduled 2 1"
proof -
  let ?S = "ex_state [ex_practice, ex_weekly, ex_missed]"
  have r: "\<not> running ?S" by (simp add: ex_state_fields)
  have p: "\<forall>a\<in>set (stored ex_env ?S). naive_dated ex_env a"
    using ex_naive_dated by (simp add: stored_ex_state)
  have d: "distinct (map ann_id (stored ex_env ?S))"
    by (simp add: stored_ex_state ex_ids)
  note t = recovery_skips_missed_one_shots [OF r ex_now_naive p d]
  have "fst (initialize ex_env ?S) = Inr ()" using t by blast
  moreover have "stored ex_env (snd (initialize ex_env ?S)) = stored ex_env ?S"
    using t by blast
  moreover have "\<forall>a\<in>set (stored ex_env ?S). missed ex_env a \<longrightarrow>
            jobs (snd (initialize ex_env ?S)) (ann_id a) = jobs ?S (ann_id a)"
    using t by blast
  moreover have "\<forall>a\<in>set (stored ex_env ?S). \<not> missed ex_env a \<longrightarrow>
            jobs (snd (initialize ex_env ?S)) (ann_id a) = rule_of ex_env a \<and>
            (rule_of ex_env a \<noteq> None \<longleftrightarrow> recognised (repeating a))"
    using t by blast
  moreover have "last (logged (snd (initialize ex_env ?S))) =
           Info_rescheduled (length (filter (\<lambda>a. \<not> missed ex_env a) (stored ex_env ?S)))
                            (length (filter (missed ex_env) (stored ex_env ?S)))"
    using t by blast
  ultimately show ?thesis
    by (simp add: stored_ex_state ex_missed_facts ex_rules ex_ids ex_state_fields)
qed

text \<open>
  A stored announcement whose recurrence is none of the recognised literals is not a
  missed one-shot, is counted as rescheduled, and has no timer after recovery.
\<close>

theorem recovery_unrecognised_recurrence_counterexample:
  "stored ex_env (ex_state [ex_yearly]) = [ex_yearly] \<and>
   \<not> missed ex_env ex_yearly \<and>
   fst (initialize ex_env (ex_state [ex_yearly])) = Inr () \<and>
   jobs (snd (initialize ex_env (ex_state [ex_yearly]))) (ann_id ex_yearly) = None \<and>
   last (logged (snd (initialize ex_env (ex_state [ex_yearly])))) = Info_rescheduled 1 0"
proof -
  let ?S = "ex_state [ex_yearly]"
  let ?T = "log_msg Info_scheduler_started (?S\<lparr>running := True\<rparr>)"
  have i: "initialize ex_env ?S = load_and_reschedule_announcements ex_env ?T"
    and st: "stored ex_env ?T = [ex_yearly]"
    using initialize_fresh [of ?S ex_env] by (simp_all add: ex_state_fields stored_ex_state)
  have p: "\<forall>a\<in>set (stored ex_env ?T). raised ex_env a = None"
    using ex_raised by (simp add: st)
  have d: "distinct (map ann_id (stored ex_env ?T))"
    by (simp add: st)
  have "fst (initialize ex_env ?S) = Inr ()"
    by (simp add: i recovery_ok [OF p])
  moreover have "jobs (snd (initialize ex_env ?S)) (ann_id ex_yearly) = None"
    using recovery_scheduled_jobs [OF p d, of ex_yearly]
    by (simp add: i st ex_missed_facts ex_rules)
  moreover have "last (logged (snd (initialize ex_env ?S))) = Info_rescheduled 1 0"
    by (simp only: i recovery_ok [OF p] st snd_conv) (simp add: log_msg_def ex_missed_facts)
  ultimately show ?thesis
    by (simp add: stored_ex_state ex_missed_facts)
qed

section \<open>Scheduling: recurrence values outside the recognised ones\<close>

text \<open>
  Claim C4, as the code has it. For an announcement whose datetime parses and whose
  recurrence is none of \<^verbatim>\<open>none\<close>, \<^verbatim>\<open>daily\<close>, \<^verbatim>\<open>weekly\<close>, \<^verbatim>\<open>monthly\<close>, \<^verbatim>\<open>_schedule_job\<close>
  raises nothing: it logs \<^verbatim>\<open>Unknown repeating type\<close> at error level and returns
  normally. No timer is registered for the id (one registered before is gone, since
  the removal precedes the dispatch); the timers of other ids and the files are
  untouched. Nothing propagates: the recovery loop goes on with the next announcement,
  counting this one as rescheduled.
\<close>

theorem unknown_recurrence_is_logged_not_raised:
  assumes "\<not> recognised (repeating a)" and "fromisoformat e (ann_datetime a) = Some t"
  shows "schedule_job e a s =
           (Inr (), log_msg (Error_unknown_repeating (repeating a))
                      (s\<lparr>jobs := (jobs s)(ann_id a := None)\<rparr>)) \<and>
         reschedule_loop e (a # rest) r k s =
           reschedule_loop e rest (r + 1) k
             (log_msg (Error_unknown_repeating (repeating a))
                (s\<lparr>jobs := (jobs s)(ann_id a := None)\<rparr>))"
proof -
  have b: "build_trigger t (repeating a) = None"
    using assms(1) build_trigger_recognised [of t "repeating a"] by simp
  have sj: "schedule_job e a s =
           (Inr (), log_msg (Error_unknown_repeating (repeating a))
                      (s\<lparr>jobs := (jobs s)(ann_id a := None)\<rparr>))"
    by (simp add: schedule_job_parsed [OF assms(2)] b)
  have nm: "\<not> missed e a"
    by (rule unrecognised_not_missed [OF assms(1)])
  have p: "raised e a = None"
    by (rule unrecognised_not_raised [OF assms])
  show ?thesis
    by (simp only: reschedule_loop_step_scheduled [OF nm p] sj snd_conv simp_thms)
qed

theorem unknown_recurrence_is_logged_not_raised_witness:
  "schedule_job ex_env ex_yearly (ex_state [ex_yearly, ex_weekly]) =
     (Inr (), log_msg (Error_unknown_repeating ''yearly'')
                (ex_state [ex_yearly, ex_weekly]
                   \<lparr>jobs := (jobs (ex_state [ex_yearly, ex_weekly]))(''a4'' := None)\<rparr>)) \<and>
   jobs (snd (reschedule_loop ex_env [ex_yearly, ex_weekly] 0 0
               (ex_state [ex_yearly, ex_weekly]))) ''a2'' =
     Some (CronTrigger (Some 0) None 18 30)"
proof -
  note t = unknown_recurrence_is_logged_not_raised
             [OF ex_recognised(4) ex_parsed(1), of "ex_state [ex_yearly, ex_weekly]"
                "[ex_weekly]" 0 0]
  have 1: "schedule_job ex_env ex_yearly (ex_state [ex_yearly, ex_weekly]) =
     (Inr (), log_msg (Error_unknown_repeating (repeating ex_yearly))
                (ex_state [ex_yearly, ex_weekly]
                   \<lparr>jobs := (jobs (ex_state [ex_yearly, ex_weekly]))(ann_id ex_yearly := None)\<rparr>))"
    using t by blast
  have 2: "reschedule_loop ex_env [ex_yearly, ex_weekly] 0 0 (ex_state [ex_yearly, ex_weekly]) =
           reschedule_loop ex_env [ex_weekly] (0 + 1) 0
             (log_msg (Error_unknown_repeating (repeating ex_yearly))
                (ex_state [ex_yearly, ex_weekly]
                   \<lparr>jobs := (jobs (ex_state [ex_yearly, ex_weekly]))(ann_id ex_yearly := None)\<rparr>))"
    using t by blast
  have p: "\<forall>a\<in>set [ex_weekly]. raised ex_env a = None"
    using ex_raised by simp
  have 3: "jobs (snd (reschedule_loop ex_env [ex_yearly, ex_weekly] 0 0
               (ex_state [ex_yearly, ex_weekly]))) (ann_id ex_weekly) = rule_of ex_env ex_weekly"
    by (simp only: 2) (rule reschedule_loop_scheduled_jobs [OF p], simp_all add: ex_missed_facts)
  show ?thesis
    using 1 3 by (simp add: ex_ids ex_repeating ex_rules)
qed

text \<open>
  Scheduling a stored record with the recurrence \<^verbatim>\<open>yearly\<close> does not fail: the call
  returns normally, and its last log entry is the error message.
\<close>

theorem unknown_recurrence_returns_normally_counterexample:
  "\<not> recognised (repeating ex_yearly) \<and>
   fst (schedule_job ex_env ex_yearly (ex_state [ex_yearly])) = Inr () \<and>
   \<not> isl (fst (schedule_job ex_env ex_yearly (ex_state [ex_yearly]))) \<and>
   last (logged (snd (schedule_job ex_env ex_yearly (ex_state [ex_yearly])))) =
     Error_unknown_repeating ''yearly''"
proof -
  have "build_trigger \<lparr>year = 2026, month = 3, day = 1, hour = 10, minute = 0, second = 0,
          microsecond = 0, utcoffset = None\<rparr> (repeating ex_yearly) = None"
    by (simp add: build_trigger_def ex_repeating)
  then show ?thesis
    by (simp add: schedule_job_parsed [OF ex_parsed(1)] recognised_def log_msg_def ex_repeating)
qed

lemma ex_aware_parsed:
  "fromisoformat ex_env (ann_datetime ex_aware) =
     Some \<lparr>year = 2026, month = 2, day = 20, hour = 18, minute = 0, second = 0,
       microsecond = 0, utcoffset = Some 0\<rparr>"
  by (simp add: ex_env_fields ex_aware_def parse_iso_more_examples)

section \<open>Recovery and exceptions\<close>

text \<open>
  Claim C5, as the code has it; \<^verbatim>\<open>now\<close> is naive, as \<^verbatim>\<open>datetime.now()\<close> is. The loop of
  \<^verbatim>\<open>load_and_reschedule_announcements\<close> has no handler of its own. What does not stop it
  is what raises nothing there: an announcement with an unrecognised recurrence is
  logged inside \<^verbatim>\<open>_schedule_job\<close> and gets no timer, and a job that is not in the table
  is no obstacle (the job table of the state is arbitrary). So over a stored collection
  with distinct ids whose datetimes all parse, those of the one-shots to naive
  datetimes, recovery returns normally, every stored announcement with a recognised
  recurrence that is not a missed one-shot has its timer, and one with an unrecognised
  recurrence has none. An exception raised for one announcement leaves recovery at
  once, with that exception: \<^verbatim>\<open>ValueError\<close> for a datetime that does not parse,
  \<^verbatim>\<open>TypeError\<close> for a one-shot whose datetime parses to an aware datetime. The job
  table is then unchanged at every id that does not occur before the failing
  announcement, so the announcements after it get no timer. \<^verbatim>\<open>initialize\<close> on a
  scheduler that does not run yet returns or raises what recovery does, with the same
  job table.
\<close>

theorem recovery_stops_at_first_exception:
  assumes "utcoffset (now e) = None"
  shows
  "((\<forall>a\<in>set (stored e s). naive_dated e a) \<and> distinct (map ann_id (stored e s)) \<longrightarrow>
      fst (load_and_reschedule_announcements e s) = Inr () \<and>
      (\<forall>a\<in>set (stored e s). \<not> missed e a \<and> recognised (repeating a) \<longrightarrow>
         jobs (snd (load_and_reschedule_announcements e s)) (ann_id a) = rule_of e a \<and>
         rule_of e a \<noteq> None) \<and>
      (\<forall>a\<in>set (stored e s). \<not> recognised (repeating a) \<longrightarrow>
         jobs (snd (load_and_reschedule_announcements e s)) (ann_id a) = None)) \<and>
   (stored e s = pre @ bad # post \<and> (\<forall>a\<in>set pre. naive_dated e a) \<and>
    (fromisoformat e (ann_datetime bad) = None \<and> err = ValueError \<or>
     (\<exists>t off. fromisoformat e (ann_datetime bad) = Some t \<and> repeating bad = ''none'' \<and>
        utcoffset t = Some off) \<and> err = TypeError) \<longrightarrow>
      fst (load_and_reschedule_announcements e s) = Inl err \<and>
      (\<forall>i. i \<notin> ann_id ` set pre \<longrightarrow>
         jobs (snd (load_and_reschedule_announcements e s)) i = jobs s i)) \<and>
   (\<not> running s \<longrightarrow>
      fst (initialize e s) = fst (load_and_reschedule_announcements e s) \<and>
      jobs (snd (initialize e s)) = jobs (snd (load_and_reschedule_announcements e s)))"
proof (intro conjI impI ballI allI)
  assume h: "(\<forall>a\<in>set (stored e s). naive_dated e a) \<and>
    distinct (map ann_id (stored e s))"
  then have p: "\<forall>a\<in>set (stored e s). raised e a = None"
    and d: "distinct (map ann_id (stored e s))"
    by (simp_all add: raised_naive_dated [OF assms])
  show "fst (load_and_reschedule_announcements e s) = Inr ()"
    by (simp add: recovery_ok [OF p])
  {
    fix a assume a: "a \<in> set (stored e s)" "\<not> missed e a \<and> recognised (repeating a)"
    have "raised e a = None" using p a(1) by blast
    then have pa: "fromisoformat e (ann_datetime a) \<noteq> None" by (rule raised_None_parses)
    show "jobs (snd (load_and_reschedule_announcements e s)) (ann_id a) = rule_of e a"
      using recovery_scheduled_jobs [OF p d a(1)] a(2) by simp
    show "rule_of e a \<noteq> None"
      using rule_of_recognised [OF pa] a(2) by simp
  }
  {
    fix a assume a: "a \<in> set (stored e s)" "\<not> recognised (repeating a)"
    have "raised e a = None" using p a(1) by blast
    then have pa: "fromisoformat e (ann_datetime a) \<noteq> None" by (rule raised_None_parses)
    have "rule_of e a = None"
      using rule_of_recognised [OF pa] a(2) by simp
    then show "jobs (snd (load_and_reschedule_announcements e s)) (ann_id a) = None"
      using recovery_scheduled_jobs [OF p d a(1) unrecognised_not_missed [OF a(2)]] by simp
  }
next
  assume h: "stored e s = pre @ bad # post \<and> (\<forall>a\<in>set pre. naive_dated e a) \<and>
    (fromisoformat e (ann_datetime bad) = None \<and> err = ValueError \<or>
     (\<exists>t off. fromisoformat e (ann_datetime bad) = Some t \<and> repeating bad = ''none'' \<and>
        utcoffset t = Some off) \<and> err = TypeError)"
  then have st: "stored e s = pre @ bad # post"
    and p: "\<forall>a\<in>set pre. raised e a = None"
    by (simp_all add: raised_naive_dated [OF assms])
  have b: "raised e bad = Some err"
    using h raised_unparsable [of e bad] raised_aware_one_shot [OF assms, of bad] by auto
  show "fst (load_and_reschedule_announcements e s) = Inl err"
    by (rule recovery_aborts(1) [OF st p b])
  fix i assume "i \<notin> ann_id ` set pre"
  then have "\<forall>a\<in>set pre. \<not> missed e a \<longrightarrow> ann_id a \<noteq> i" by blast
  then show "jobs (snd (load_and_reschedule_announcements e s)) i = jobs s i"
    by (rule recovery_aborts(2) [OF st p b])
next
  assume r: "\<not> running s"
  show "fst (initialize e s) = fst (load_and_reschedule_announcements e s)"
    by (rule initialize_recovery(1) [OF r])
  show "jobs (snd (initialize e s)) = jobs (snd (load_and_reschedule_announcements e s))"
    by (rule initialize_recovery(2) [OF r])
qed

theorem recovery_stops_at_first_exception_witness:
  "fst (load_and_reschedule_announcements ex_env (ex_state [ex_yearly, ex_weekly])) = Inr () \<and>
   jobs (snd (load_and_reschedule_announcements ex_env (ex_state [ex_yearly, ex_weekly]))) ''a2''
     = Some (CronTrigger (Some 0) None 18 30) \<and>
   jobs (snd (load_and_reschedule_announcements ex_env (ex_state [ex_yearly, ex_weekly]))) ''a4''
     = None \<and>
   fst (initialize ex_env (ex_state [ex_yearly, ex_weekly])) = Inr () \<and>
   fst (load_and_reschedule_announcements ex_env
         (ex_state [ex_weekly, ex_unparsable, ex_practice])) = Inl ValueError \<and>
   jobs (snd (load_and_reschedule_announcements ex_env
         (ex_state [ex_weekly, ex_unparsable, ex_practice]))) ''a1'' = None \<and>
   fst (initialize ex_env (ex_state [ex_weekly, ex_aware, ex_practice])) = Inl TypeError \<and>
   jobs (snd (initialize ex_env (ex_state [ex_weekly, ex_aware, ex_practice]))) ''a1'' = None"
proof -
  let ?A = "ex_state [ex_yearly, ex_weekly]"
  let ?B = "ex_state [ex_weekly, ex_unparsable, ex_practice]"
  let ?C = "ex_state [ex_weekly, ex_aware, ex_practice]"
  have h1: "(\<forall>a\<in>set (stored ex_env ?A). naive_dated ex_env a) \<and>
    distinct (map ann_id (stored ex_env ?A))"
    using ex_naive_dated by (simp add: stored_ex_state ex_ids)
  have h2: "stored ex_env ?B = [ex_weekly] @ ex_unparsable # [ex_practice] \<and>
    (\<forall>a\<in>set [ex_weekly]. naive_dated ex_env a) \<and>
    (fromisoformat ex_env (ann_datetime ex_unparsable) = None \<and> ValueError = ValueError \<or>
     (\<exists>t off. fromisoformat ex_env (ann_datetime ex_unparsable) = Some t \<and>
        repeating ex_unparsable = ''none'' \<and> utcoffset t = Some off) \<and> ValueError = TypeError)"
    using ex_naive_dated ex_parses by (simp add: stored_ex_state)
  have h3: "stored ex_env ?C = [ex_weekly] @ ex_aware # [ex_practice] \<and>
    (\<forall>a\<in>set [ex_weekly]. naive_dated ex_env a) \<and>
    (fromisoformat ex_env (ann_datetime ex_aware) = None \<and> TypeError = ValueError \<or>
     (\<exists>t off. fromisoformat ex_env (ann_datetime ex_aware) = Some t \<and>
        repeating ex_aware = ''none'' \<and> utcoffset t = Some off) \<and> TypeError = TypeError)"
    using ex_naive_dated ex_aware_parsed by (simp add: stored_ex_state ex_repeating)
  note ta = recovery_stops_at_first_exception
              [OF ex_now_naive, of ?A "[]" ex_unparsable "[]" ValueError]
  note tb = recovery_stops_at_first_exception
              [OF ex_now_naive, of ?B "[ex_weekly]" ex_unparsable "[ex_practice]" ValueError]
  note tc = recovery_stops_at_first_exception
              [OF ex_now_naive, of ?C "[ex_weekly]" ex_aware "[ex_practice]" TypeError]
  have a1: "fst (load_and_reschedule_announcements ex_env ?A) = Inr ()"
    using ta h1 by blast
  have a2: "\<forall>a\<in>set (stored ex_env ?A). \<not> missed ex_env a \<and> recognised (repeating a) \<longrightarrow>
         jobs (snd (load_and_reschedule_announcements ex_env ?A)) (ann_id a) = rule_of ex_env a \<and>
         rule_of ex_env a \<noteq> None"
    using ta h1 by blast
  have a3: "\<forall>a\<in>set (stored ex_env ?A). \<not> recognised (repeating a) \<longrightarrow>
         jobs (snd (load_and_reschedule_announcements ex_env ?A)) (ann_id a) = None"
    using ta h1 by blast
  have a4: "fst (initialize ex_env ?A) = fst (load_and_reschedule_announcements ex_env ?A)"
    using ta by (simp add: ex_state_fields)
  have b1: "fst (load_and_reschedule_announcements ex_env ?B) = Inl ValueError"
    using tb h2 by blast
  have b2: "\<forall>i. i \<notin> ann_id ` set [ex_weekly] \<longrightarrow>
         jobs (snd (load_and_reschedule_announcements ex_env ?B)) i = jobs ?B i"
    using tb h2 by blast
  have b3: "jobs (snd (load_and_reschedule_announcements ex_env ?B)) ''a1'' = jobs ?B ''a1''"
    using b2 by (simp add: ex_ids)
  have c1: "fst (load_and_reschedule_announcements ex_env ?C) = Inl TypeError"
    using tc h3 by blast
  have c2: "\<forall>i. i \<notin> ann_id ` set [ex_weekly] \<longrightarrow>
         jobs (snd (load_and_reschedule_announcements ex_env ?C)) i = jobs ?C i"
    using tc h3 by blast
  have c3: "jobs (snd (load_and_reschedule_announcements ex_env ?C)) ''a1'' = jobs ?C ''a1''"
    using c2 by (simp add: ex_ids)
  have c4: "fst (initialize ex_env ?C) = fst (load_and_reschedule_announcements ex_env ?C)"
    "jobs (snd (initialize ex_env ?C)) = jobs (snd (load_and_reschedule_announcements ex_env ?C))"
    using tc by (simp_all add: ex_state_fields)
  show ?thesis
    using a1 a2 a3 b1 b3
    by (simp add: a4 c4 c1 c3 stored_ex_state ex_ids ex_missed_facts ex_recognised ex_rules
        ex_state_fields)
qed

text \<open>
  A collection whose first record has an unparsable datetime and whose second is a
  weekly announcement that schedules without error on its own: recovery, and with it
  \<^verbatim>\<open>initialize\<close>, raises \<^verbatim>\<open>ValueError\<close>, logs nothing, and the weekly announcement has
  no timer.
\<close>

theorem recovery_aborts_on_exception_counterexample:
  "fst (schedule_job ex_env ex_weekly (ex_state [ex_unparsable, ex_weekly])) = Inr () \<and>
   jobs (snd (schedule_job ex_env ex_weekly (ex_state [ex_unparsable, ex_weekly]))) ''a2'' =
     Some (CronTrigger (Some 0) None 18 30) \<and>
   fst (load_and_reschedule_announcements ex_env (ex_state [ex_unparsable, ex_weekly])) =
     Inl ValueError \<and>
   fst (initialize ex_env (ex_state [ex_unparsable, ex_weekly])) = Inl ValueError \<and>
   jobs (snd (load_and_reschedule_announcements ex_env (ex_state [ex_unparsable, ex_weekly])))
     ''a2'' = None \<and>
   logged (snd (load_and_reschedule_announcements ex_env (ex_state [ex_unparsable, ex_weekly])))
     = []"
proof -
  let ?B = "ex_state [ex_unparsable, ex_weekly]"
  have l: "load_announcements ex_env ?B = ([ex_unparsable, ex_weekly], ?B)"
    by (simp add: load_announcements_def load_body_def ex_env_def ex_state_def no_faults_def)
  have lp: "reschedule_loop ex_env [ex_unparsable, ex_weekly] 0 0 ?B = (Inl ValueError, ?B)"
    by (simp add: ex_parses)
  have r: "load_and_reschedule_announcements ex_env ?B = (Inl ValueError, ?B)"
    by (simp add: load_and_reschedule_announcements_def l ex_parses)
  let ?T = "log_msg Info_scheduler_started (?B\<lparr>running := True\<rparr>)"
  have lt: "load_announcements ex_env ?T = ([ex_unparsable, ex_weekly], ?T)"
    by (simp add: load_announcements_def load_body_def ex_env_def ex_state_def no_faults_def
        log_msg_def)
  have lpt: "reschedule_loop ex_env [ex_unparsable, ex_weekly] 0 0 ?T = (Inl ValueError, ?T)"
    by (simp add: ex_parses)
  have i: "fst (initialize ex_env ?B) = Inl ValueError"
    by (simp add: initialize_def ex_state_fields load_and_reschedule_announcements_def lt
        ex_parses)
  have sj: "fst (schedule_job ex_env ex_weekly ?B) = Inr ()"
    "jobs (snd (schedule_job ex_env ex_weekly ?B)) ''a2'' = Some (CronTrigger (Some 0) None 18 30)"
    using schedule_job_jobs [of ex_env ex_weekly ?B] ex_parses(2)
    by (simp_all add: ex_ids ex_rules)
  show ?thesis
    using sj i by (simp add: r ex_state_fields)
qed

section \<open>The weekly rule\<close>




end
